theory Spec2Isabelle
  imports Main "HOL-Library.Word" "HOL-Library.Signed_Division"
begin

section \<open>tflow2: the IPFIX collector (ifserver) and the annotation stage (annotator)\<close>

subsection \<open>Machine integers and run-time errors\<close>

type_synonym byte = "8 word"
type_synonym uint16 = "16 word"
type_synonym uint32 = "32 word"
type_synonym uint64 = "64 word"

text \<open>Go's \<open>int64\<close>: a 64-bit word, read as two's complement by \<open>sint\<close>.\<close>

type_synonym int64 = "64 word"

text \<open>The run-time panics the two source files can raise.\<close>

datatype panic = DivideByZero | IndexOutOfRange

text \<open>
  Go's \<open>x % y\<close> on \<open>int64\<close>: integer divide by zero panics; otherwise the remainder of
  the division truncated towards zero (it has the sign of \<open>x\<close>). For the most negative
  \<open>x\<close> and \<open>y = -1\<close> Go defines the remainder as 0, which \<open>smod\<close> gives as well.
\<close>

definition rem_int64 :: "int64 \<Rightarrow> int64 \<Rightarrow> panic + int64" where
  "rem_int64 x y = (if y = 0 then Inl DivideByZero else Inr (word_of_int (sint x smod sint y)))"

subsection \<open>netflow.Flow and the global statistics\<close>

text \<open>
  Modelled from the spec: the declaration of \<open>netflow.Flow\<close> is not among the sources; the
  record has the fields that ifserver.go and annotator.go read and write, with the
  types their conversions fix (\<open>Timestamp\<close> is assigned an \<open>int64\<close>, \<open>Size\<close> a
  \<open>uint64\<close>, the other scalars a \<open>uint32\<close>, the addresses byte slices).
\<close>

record Flow =
  Router :: "byte list"
  Timestamp :: int64
  Family :: uint32
  Packets :: uint32
  Size :: uint64
  Protocol :: uint32
  IntIn :: uint32
  IntOut :: uint32
  SrcPort :: uint32
  DstPort :: uint32
  SrcAddr :: "byte list"
  DstAddr :: "byte list"
  NextHop :: "byte list"
  SrcAs :: uint32
  DstAs :: uint32

text \<open>Go's zero value of the struct (\<open>var fl netflow.Flow\<close>).\<close>

definition zeroFlow :: Flow where
  "zeroFlow = \<lparr> Router = [], Timestamp = 0, Family = 0, Packets = 0, Size = 0, Protocol = 0,
     IntIn = 0, IntOut = 0, SrcPort = 0, DstPort = 0, SrcAddr = [], DstAddr = [], NextHop = [],
     SrcAs = 0, DstAs = 0 \<rparr>"

text \<open>
  Modelled from the spec: \<open>stats.GlobalStats\<close> is declared outside the sources; these are
  the counters the two files add to, each a \<open>uint64\<close> updated by \<open>atomic.AddUint64\<close>.
\<close>

record GlobalStats =
  IPFIXpackets :: uint64
  IPFIXbytes :: uint64
  Flows4 :: uint64
  Flows6 :: uint64
  FlowBytes :: uint64
  FlowPackets :: uint64

subsection \<open>annotator.go\<close>

text \<open>
  The \<open>Annotator\<close> struct. The channels are the arguments and results of the worker's
  step below; \<open>birdAnnotator\<close> is the external BIRD client, of which only \<open>Augment\<close> is
  called: it is a function on flows here.
\<close>

record Annotator =
  aggregation :: int64
  numWorkers :: int
  bgpAugment :: bool
  birdAugment :: "Flow \<Rightarrow> Flow"
  debug :: int

text \<open>\<open>New\<close> stores its arguments; it checks none of them.\<close>

definition New :: "int \<Rightarrow> int64 \<Rightarrow> bool \<Rightarrow> (Flow \<Rightarrow> Flow) \<Rightarrow> int \<Rightarrow> Annotator" where
  "New nw aggr bgp bird dbg =
     \<lparr> aggregation = aggr, numWorkers = nw, bgpAugment = bgp, birdAugment = bird, debug = dbg \<rparr>"

text \<open>Line 62: \<open>fl.Timestamp - (fl.Timestamp % a.aggregation)\<close>, on \<open>int64\<close>.\<close>

definition align :: "int64 \<Rightarrow> int64 \<Rightarrow> panic + int64" where
  "align t p = (case rem_int64 t p of Inl e \<Rightarrow> Inl e | Inr r \<Rightarrow> Inr (t - r))"

text \<open>
  One iteration of a worker's loop in \<open>Init\<close>: the flow read from the input channel and
  the global statistics go in; the statistics and the flow sent on the output channel
  come out, or the panic that ends the process.
\<close>

definition annotate :: "Annotator \<Rightarrow> GlobalStats \<Rightarrow> Flow \<Rightarrow> panic + (GlobalStats \<times> Flow)" where
  "annotate a st fl =
     (case align (Timestamp fl) (aggregation a) of
        Inl e \<Rightarrow> Inl e
      | Inr t \<Rightarrow>
          (let fl1 = fl\<lparr>Timestamp := t\<rparr>;
               st1 = st\<lparr>FlowBytes := FlowBytes st + Size fl1\<rparr>;
               st2 = st1\<lparr>FlowPackets := FlowPackets st1 + ucast (Packets fl1)\<rparr>;
               fl2 = (if bgpAugment a then birdAugment a fl1 else fl1)
           in Inr (st2, fl2)))"

subsection \<open>What ifserver.go takes from the packages convert, net and ipfix\<close>

text \<open>
  Modelled from the spec: \<open>convert.Uint32\<close> is not among the sources. The spec says of the
  scalar fields that they "are decoded as unsigned big-endian integers": the first byte is
  the most significant one, and bytes beyond the fourth from the end fall out of the
  32 bits.
\<close>

definition Uint32 :: "byte list \<Rightarrow> uint32" where
  "Uint32 bs = foldl (\<lambda>acc b. acc * 256 + ucast b) 0 bs"

text \<open>
  Modelled from the spec: \<open>convert.Reverse\<close> is not among the sources. The spec calls it
  "the byte-order reversal" of a value sequence: the bytes in the opposite order.
\<close>

definition Reverse :: "byte list \<Rightarrow> byte list" where
  "Reverse bs = rev bs"

text \<open>
  \<open>net.IP.To4\<close> of Go's standard library: a 4-byte address is returned as it is, a 16-byte
  address with the IPv4-in-IPv6 prefix (ten zero bytes, then \<open>0xff 0xff\<close>) gives its last
  four bytes, every other address gives \<open>nil\<close>.
\<close>

definition To4 :: "byte list \<Rightarrow> byte list option" where
  "To4 ip =
     (if length ip = 4 then Some ip
      else if length ip = 16 \<and> take 10 ip = replicate 10 0 \<and> ip ! 10 = 255 \<and> ip ! 11 = 255
        then Some (drop 12 ip)
      else None)"

text \<open>
  The field type codes are constants of package \<open>ipfix\<close>, which is not among the sources.
  \<open>generateFieldMap\<close> names fifteen of them in one \<open>switch\<close>, so they are pairwise distinct
  (Go rejects a duplicate constant case); every other code is an \<open>ipfix_Other\<close>.
\<close>

datatype field_type =
    ipfix_IPv4SrcAddr | ipfix_IPv6SrcAddr | ipfix_IPv4DstAddr | ipfix_IPv6DstAddr
  | ipfix_InBytes | ipfix_Protocol | ipfix_InPkts | ipfix_InputSnmp | ipfix_OutputSnmp
  | ipfix_IPv4NextHop | ipfix_IPv6NextHop | ipfix_L4SrcPort | ipfix_L4DstPort
  | ipfix_SrcAs | ipfix_DstAs | ipfix_Other nat

text \<open>
  Modelled from the spec: the types of package \<open>ipfix\<close>, with the fields ifserver.go reads.
  A template definition is "an ordered sequence of (field-type code, field-length) pairs";
  \<open>PacketDomainID\<close> is \<open>tr.Packet.Header.DomainID\<close> and \<open>TemplateID\<close> is
  \<open>tr.Header.TemplateID\<close>. A data record is its sequence of raw values; a set has the
  identifier of its header and its undecoded payload.
\<close>

record TemplateField =
  Type :: field_type
  Length :: uint16

record TemplateRecords =
  TemplateID :: uint16
  PacketDomainID :: uint32
  Records :: "TemplateField list"

record FlowDataRecord =
  Values :: "byte list list"

record FlowSet =
  SetID :: uint16
  Payload :: "byte list"

record Packet =
  DomainID :: uint32
  ExportTime :: uint32
  GetTemplateRecords :: "TemplateRecords list"
  DataFlowSets :: "FlowSet list"

subsection \<open>ifserver.go\<close>

text \<open>The struct \<open>fieldMap\<close>; its fields are Go \<open>int\<close>s.\<close>

record fieldMap =
  srcAddr :: int
  dstAddr :: int
  protocol :: int
  packets :: int
  size_fm :: int
  intIn :: int
  intOut :: int
  nextHop :: int
  family :: int
  vlan :: int
  ts :: int
  srcAsn :: int
  dstAsn :: int
  srcPort :: int
  dstPort :: int

text \<open>\<open>var fm fieldMap\<close>: every field is zero.\<close>

definition zeroFieldMap :: fieldMap where
  "zeroFieldMap = \<lparr> srcAddr = 0, dstAddr = 0, protocol = 0, packets = 0, size_fm = 0, intIn = 0,
     intOut = 0, nextHop = 0, family = 0, vlan = 0, ts = 0, srcAsn = 0, dstAsn = 0, srcPort = 0,
     dstPort = 0 \<rparr>"

text \<open>The \<open>switch f.Type\<close> of \<open>generateFieldMap\<close>, for the field at index \<open>i\<close>.\<close>

fun fieldSwitch :: "fieldMap \<Rightarrow> int \<Rightarrow> field_type \<Rightarrow> fieldMap" where
  "fieldSwitch fm i ipfix_IPv4SrcAddr = fm\<lparr>srcAddr := i, family := 4\<rparr>"
| "fieldSwitch fm i ipfix_IPv6SrcAddr = fm\<lparr>srcAddr := i, family := 6\<rparr>"
| "fieldSwitch fm i ipfix_IPv4DstAddr = fm\<lparr>dstAddr := i\<rparr>"
| "fieldSwitch fm i ipfix_IPv6DstAddr = fm\<lparr>dstAddr := i\<rparr>"
| "fieldSwitch fm i ipfix_InBytes = fm\<lparr>size_fm := i\<rparr>"
| "fieldSwitch fm i ipfix_Protocol = fm\<lparr>protocol := i\<rparr>"
| "fieldSwitch fm i ipfix_InPkts = fm\<lparr>packets := i\<rparr>"
| "fieldSwitch fm i ipfix_InputSnmp = fm\<lparr>intIn := i\<rparr>"
| "fieldSwitch fm i ipfix_OutputSnmp = fm\<lparr>intOut := i\<rparr>"
| "fieldSwitch fm i ipfix_IPv4NextHop = fm\<lparr>nextHop := i\<rparr>"
| "fieldSwitch fm i ipfix_IPv6NextHop = fm\<lparr>nextHop := i\<rparr>"
| "fieldSwitch fm i ipfix_L4SrcPort = fm\<lparr>srcPort := i\<rparr>"
| "fieldSwitch fm i ipfix_L4DstPort = fm\<lparr>dstPort := i\<rparr>"
| "fieldSwitch fm i ipfix_SrcAs = fm\<lparr>srcAsn := i\<rparr>"
| "fieldSwitch fm i ipfix_DstAs = fm\<lparr>dstAsn := i\<rparr>"
| "fieldSwitch fm i (ipfix_Other c) = fm"

text \<open>
  The loop of \<open>generateFieldMap\<close> over the fields still to visit: \<open>i\<close> is the index of
  the field visited last (\<open>i++\<close> comes first in the body).
\<close>

fun fieldLoop :: "fieldMap \<Rightarrow> int \<Rightarrow> TemplateField list \<Rightarrow> fieldMap" where
  "fieldLoop fm i [] = fm"
| "fieldLoop fm i (f # fs) = fieldLoop (fieldSwitch fm (i + 1) (Type f)) (i + 1) fs"

definition generateFieldMap :: "TemplateRecords \<Rightarrow> fieldMap" where
  "generateFieldMap template = fieldLoop zeroFieldMap (- 1) (Records template)"

text \<open>
  Modelled from the spec: the template cache is declared in a file of package \<open>ifserver\<close>
  that is not among the sources. The spec's contract: \<open>set\<close> "stores/overwrites the
  definition for a Template Identity", \<open>get\<close> "retrieves the current definition" or yields
  absent; an identity is the triple of exporter address, domain identifier and template
  identifier.
\<close>

type_synonym templateCache = "uint32 \<times> uint32 \<times> uint16 \<rightharpoonup> TemplateRecords"

definition newTemplateCache :: templateCache where
  "newTemplateCache = Map.empty"

definition cache_set :: "templateCache \<Rightarrow> uint32 \<Rightarrow> uint32 \<Rightarrow> uint16 \<Rightarrow> TemplateRecords \<Rightarrow> templateCache" where
  "cache_set c router domainID templateID tr = c((router, domainID, templateID) \<mapsto> tr)"

definition cache_get :: "templateCache \<Rightarrow> uint32 \<Rightarrow> uint32 \<Rightarrow> uint16 \<Rightarrow> TemplateRecords option" where
  "cache_get c router domainID templateID = c (router, domainID, templateID)"

text \<open>
  The struct \<open>IPFIXServer\<close> together with what its methods change besides it:
  \<open>Output\<close> holds the flows sent on the channel so far, oldest first, and \<open>stats\<close> is the
  package-level \<open>stats.GlobalStats\<close>. (The fields \<open>debug\<close> and \<open>bgpAugment\<close> carry a prefix
  here, the annotator's record has the same names.) Log lines are not part of the state.
\<close>

record IPFIXServer =
  tmplCache :: templateCache
  Output :: "Flow list"
  ifs_debug :: int
  ifs_bgpAugment :: bool
  stats :: GlobalStats

text \<open>\<open>r.Values[i]\<close> with Go's bounds check.\<close>

definition valueAt :: "FlowDataRecord \<Rightarrow> int \<Rightarrow> panic + byte list" where
  "valueAt r i =
     (if 0 \<le> i \<and> i < int (length (Values r)) then Inr (Values r ! nat i)
      else Inl IndexOutOfRange)"

definition bindP :: "panic + 'a \<Rightarrow> ('a \<Rightarrow> panic + 'b) \<Rightarrow> panic + 'b" where
  "bindP m f = (case m of Inl e \<Rightarrow> Inl e | Inr x \<Rightarrow> f x)"

text \<open>
  Lines 168 to 186 of \<open>processFlowSet\<close>: the flow built from one record, the reads in the
  order of the source.
\<close>

definition makeFlow :: "bool \<Rightarrow> fieldMap \<Rightarrow> FlowDataRecord \<Rightarrow> byte list \<Rightarrow> int64 \<Rightarrow> panic + Flow" where
  "makeFlow bgp fm r agent t =
     bindP (valueAt r (packets fm)) (\<lambda>vPackets.
     bindP (valueAt r (size_fm fm)) (\<lambda>vSize.
     bindP (valueAt r (protocol fm)) (\<lambda>vProtocol.
     bindP (valueAt r (intIn fm)) (\<lambda>vIntIn.
     bindP (valueAt r (intOut fm)) (\<lambda>vIntOut.
     bindP (valueAt r (srcPort fm)) (\<lambda>vSrcPort.
     bindP (valueAt r (dstPort fm)) (\<lambda>vDstPort.
     bindP (valueAt r (srcAddr fm)) (\<lambda>vSrcAddr.
     bindP (valueAt r (dstAddr fm)) (\<lambda>vDstAddr.
     bindP (valueAt r (nextHop fm)) (\<lambda>vNextHop.
       let fl = zeroFlow\<lparr> Router := agent, Timestamp := t, Family := word_of_int (family fm),
                  Packets := Uint32 vPackets, Size := ucast (Uint32 vSize),
                  Protocol := Uint32 vProtocol, IntIn := Uint32 vIntIn, IntOut := Uint32 vIntOut,
                  SrcPort := Uint32 vSrcPort, DstPort := Uint32 vDstPort,
                  SrcAddr := Reverse vSrcAddr, DstAddr := Reverse vDstAddr,
                  NextHop := Reverse vNextHop \<rparr>
       in if \<not> bgp then
            bindP (valueAt r (srcAsn fm)) (\<lambda>vSrcAs.
            bindP (valueAt r (dstAsn fm)) (\<lambda>vDstAs.
              Inr (fl\<lparr> SrcAs := Uint32 vSrcAs, DstAs := Uint32 vDstAs \<rparr>)))
          else Inr fl))))))))))"

text \<open>The body of the loop over the records in \<open>processFlowSet\<close>.\<close>

definition processRecord :: "fieldMap \<Rightarrow> byte list \<Rightarrow> int64 \<Rightarrow> IPFIXServer \<Rightarrow> FlowDataRecord \<Rightarrow> panic + IPFIXServer" where
  "processRecord fm agent t s r =
     (if family fm = 4 \<or> family fm = 6 then
        (let st = stats s;
             s1 = (if family fm = 4 then s\<lparr>stats := st\<lparr>Flows4 := Flows4 st + 1\<rparr>\<rparr>
                   else s\<lparr>stats := st\<lparr>Flows6 := Flows6 st + 1\<rparr>\<rparr>)
         in bindP (makeFlow (ifs_bgpAugment s) fm r agent t)
              (\<lambda>fl. Inr (s1\<lparr>Output := Output s1 @ [fl]\<rparr>)))
      else Inr s)"

fun processRecords :: "fieldMap \<Rightarrow> byte list \<Rightarrow> int64 \<Rightarrow> IPFIXServer \<Rightarrow> FlowDataRecord list \<Rightarrow> panic + IPFIXServer" where
  "processRecords fm agent t s [] = Inr s"
| "processRecords fm agent t s (r # rs) =
     (case processRecord fm agent t s r of
        Inl e \<Rightarrow> Inl e
      | Inr s' \<Rightarrow> processRecords fm agent t s' rs)"

definition processFlowSet :: "TemplateRecords \<Rightarrow> FlowDataRecord list \<Rightarrow> byte list \<Rightarrow> int64 \<Rightarrow> IPFIXServer \<Rightarrow> panic + IPFIXServer" where
  "processFlowSet template records agent t s =
     processRecords (generateFieldMap template) agent t s records"

text \<open>
  \<open>processFlowSets\<close>. \<open>template.DecodeFlowSet\<close> belongs to package \<open>ipfix\<close>: it is the
  parameter \<open>decodeFlowSet\<close>, \<open>None\<close> for its \<open>nil\<close> result.
\<close>

fun processFlowSets :: "(TemplateRecords \<Rightarrow> FlowSet \<Rightarrow> FlowDataRecord list option) \<Rightarrow> byte list \<Rightarrow> uint32 \<Rightarrow> FlowSet list \<Rightarrow> int64 \<Rightarrow> IPFIXServer \<Rightarrow> panic + IPFIXServer" where
  "processFlowSets decodeFlowSet remote domainID [] t s = Inr s"
| "processFlowSets decodeFlowSet remote domainID (fs # flowSets) t s =
     (case cache_get (tmplCache s) (Uint32 remote) domainID (SetID fs) of
        None \<Rightarrow> processFlowSets decodeFlowSet remote domainID flowSets t s
      | Some template \<Rightarrow>
          (case decodeFlowSet template fs of
             None \<Rightarrow> processFlowSets decodeFlowSet remote domainID flowSets t s
           | Some records \<Rightarrow>
               (case processFlowSet template records remote t s of
                  Inl e \<Rightarrow> Inl e
                | Inr s' \<Rightarrow> processFlowSets decodeFlowSet remote domainID flowSets t s')))"

definition updateTemplateCache :: "byte list \<Rightarrow> Packet \<Rightarrow> IPFIXServer \<Rightarrow> IPFIXServer" where
  "updateTemplateCache remote p s =
     s\<lparr>tmplCache :=
         foldl (\<lambda>c tr. cache_set c (Uint32 remote) (PacketDomainID tr) (TemplateID tr) tr)
           (tmplCache s) (GetTemplateRecords p)\<rparr>"

text \<open>
  \<open>processPacket\<close>. \<open>ipfix.Decode\<close> is the parameter \<open>decode\<close>, \<open>None\<close> when it returns an
  error.
\<close>

definition processPacket :: "(byte list \<Rightarrow> byte list \<Rightarrow> Packet option) \<Rightarrow> (TemplateRecords \<Rightarrow> FlowSet \<Rightarrow> FlowDataRecord list option) \<Rightarrow> byte list \<Rightarrow> byte list \<Rightarrow> IPFIXServer \<Rightarrow> panic + IPFIXServer" where
  "processPacket decode decodeFlowSet remote buffer s =
     (case decode buffer remote of
        None \<Rightarrow> Inr s
      | Some packet \<Rightarrow>
          processFlowSets decodeFlowSet remote (DomainID packet) (DataFlowSets packet)
            (ucast (ExportTime packet)) (updateTemplateCache remote packet s))"

text \<open>
  What \<open>conn.ReadFromUDP\<close> returns to \<open>packetWorker\<close>: an error, or the sender's address
  and the bytes read.
\<close>

datatype udp_read = ReadError | Datagram "byte list" "byte list"

text \<open>One iteration of the loop of \<open>packetWorker\<close>.\<close>

definition packetWorkerStep :: "(byte list \<Rightarrow> byte list \<Rightarrow> Packet option) \<Rightarrow> (TemplateRecords \<Rightarrow> FlowSet \<Rightarrow> FlowDataRecord list option) \<Rightarrow> IPFIXServer \<Rightarrow> udp_read \<Rightarrow> panic + IPFIXServer" where
  "packetWorkerStep decode decodeFlowSet s rd =
     (case rd of
        ReadError \<Rightarrow> Inr s
      | Datagram remoteIP buffer \<Rightarrow>
          (let st = stats s;
               s1 = s\<lparr>stats := st\<lparr> IPFIXpackets := IPFIXpackets st + 1,
                                     IPFIXbytes := IPFIXbytes st + of_nat (length buffer) \<rparr>\<rparr>
           in case To4 remoteIP of
                None \<Rightarrow> Inr s1
              | Some ip4 \<Rightarrow> processPacket decode decodeFlowSet ip4 buffer s1))"

text \<open>The loop of \<open>packetWorker\<close> over the reads of a run, until a panic.\<close>

fun packetWorker :: "(byte list \<Rightarrow> byte list \<Rightarrow> Packet option) \<Rightarrow> (TemplateRecords \<Rightarrow> FlowSet \<Rightarrow> FlowDataRecord list option) \<Rightarrow> IPFIXServer \<Rightarrow> udp_read list \<Rightarrow> panic + IPFIXServer" where
  "packetWorker decode decodeFlowSet s [] = Inr s"
| "packetWorker decode decodeFlowSet s (rd # rds) =
     (case packetWorkerStep decode decodeFlowSet s rd of
        Inl e \<Rightarrow> Inl e
      | Inr s' \<Rightarrow> packetWorker decode decodeFlowSet s' rds)"

text \<open>
  The server as \<open>New\<close> of package \<open>ifserver\<close> sets it up (the struct literal; the socket
  and the workers are not part of the state): an empty template cache, nothing sent on
  \<open>Output\<close> yet, and the global counters at their initial zero.
\<close>

definition zeroStats :: GlobalStats where
  "zeroStats = \<lparr> IPFIXpackets = 0, IPFIXbytes = 0, Flows4 = 0, Flows6 = 0, FlowBytes = 0,
     FlowPackets = 0 \<rparr>"

definition newIPFIXServer :: "bool \<Rightarrow> int \<Rightarrow> IPFIXServer" where
  "newIPFIXServer bgp dbg =
     \<lparr> tmplCache = newTemplateCache, Output = [], ifs_debug = dbg, ifs_bgpAugment = bgp,
       stats = zeroStats \<rparr>"

section \<open>The annotation stage\<close>

subsection \<open>Signed remainder on 64 bits\<close>

lemma sint_word_of_int_small:
  "- (2 ^ 63) \<le> k \<Longrightarrow> k < 2 ^ 63 \<Longrightarrow> sint (word_of_int k :: int64) = k"
  by (simp add: sint_sbintrunc' signed_take_bit_int_eq_self)

lemma sint_int64_range: "- (2 ^ 63) \<le> sint (w :: int64) \<and> sint w < 2 ^ 63"
  using sint_ge [of w] sint_lt [of w] by simp

text \<open>The truncated remainder lies between zero and the dividend.\<close>

lemma smod_nonneg_bounds:
  fixes a b :: int
  assumes "0 \<le> a"
  shows "0 \<le> a smod b \<and> a smod b \<le> a"
proof (cases "a = 0")
  case True
  then show ?thesis by simp
next
  case False
  with assms have "a smod b = a mod \<bar>b\<bar>"
    by (simp add: signed_modulo_int_def)
  moreover have "0 \<le> a mod \<bar>b\<bar>"
    using assms by (cases "b = 0") simp_all
  moreover have "a mod \<bar>b\<bar> \<le> a"
    using assms by (rule zmod_le_nonneg_dividend)
  ultimately show ?thesis by simp
qed

lemma smod_nonpos_bounds:
  fixes a b :: int
  assumes "a \<le> 0"
  shows "a \<le> a smod b \<and> a smod b \<le> 0"
proof -
  have "0 \<le> (- a) smod b \<and> (- a) smod b \<le> - a"
    using assms by (intro smod_nonneg_bounds) simp
  moreover have "(- a) smod b = - (a smod b)"
    by (simp add: signed_modulo_int_def)
  ultimately show ?thesis by simp
qed

lemma smod_of_aligned: "(a - a smod b) smod b = (0::int)"
proof -
  have "a - a smod b = a sdiv b * b" by (rule minus_smod_eq_sdiv_mult)
  then show ?thesis by (simp add: signed_modulo_int_def abs_mult)
qed

text \<open>Neither the remainder nor the subtraction of line 62 overflows.\<close>

lemma sint_rem_int64:
  fixes t p :: int64
  shows "sint (word_of_int (sint t smod sint p) :: int64) = sint t smod sint p"
proof -
  have "- (2 ^ 63) \<le> sint t smod sint p \<and> sint t smod sint p < 2 ^ 63"
    using smod_nonneg_bounds [of "sint t" "sint p"] smod_nonpos_bounds [of "sint t" "sint p"]
      sint_int64_range [of t]
    by (cases "0 \<le> sint t") auto
  then show ?thesis by (simp add: sint_word_of_int_small)
qed

lemma sint_align:
  fixes t p :: int64
  shows "sint (t - word_of_int (sint t smod sint p)) = sint t - sint t smod sint p"
proof -
  let ?r = "sint t smod sint p"
  have "- (2 ^ 63) \<le> sint t - ?r \<and> sint t - ?r < 2 ^ 63"
    using smod_nonneg_bounds [of "sint t" "sint p"] smod_nonpos_bounds [of "sint t" "sint p"]
      sint_int64_range [of t]
    by (cases "0 \<le> sint t") auto
  then have "signed_take_bit 63 (sint t - ?r) = sint t - ?r"
    by (simp add: signed_take_bit_int_eq_self)
  then show ?thesis
    by (simp add: sint_word_diff sint_rem_int64)
qed

subsection \<open>Alignment of the timestamp\<close>

lemma align_Inr: "p \<noteq> 0 \<Longrightarrow> align t p = Inr (t - word_of_int (sint t smod sint p))"
  by (simp add: align_def rem_int64_def)

lemma align_zero: "align t 0 = Inl DivideByZero"
  by (simp add: align_def rem_int64_def)

lemma align_idem:
  assumes "p \<noteq> 0" and "align t p = Inr a"
  shows "align a p = Inr a"
proof -
  from assms have a: "a = t - word_of_int (sint t smod sint p)"
    by (simp add: align_Inr)
  have "sint a smod sint p = 0"
    unfolding a sint_align by (rule smod_of_aligned)
  with assms(1) show ?thesis by (simp add: align_Inr)
qed

lemma align_floor:
  assumes "0 < sint p" and "0 \<le> sint t" and "align t p = Inr a"
  shows "sint a \<le> sint t \<and> sint t < sint a + sint p"
proof -
  from assms(1) have "p \<noteq> 0" by auto
  with assms(3) have "a = t - word_of_int (sint t smod sint p)"
    by (simp add: align_Inr)
  then have a: "sint a = sint t - sint t smod sint p"
    by (simp only: sint_align)
  have "sint t smod sint p = sint t mod sint p"
    using assms(1,2) by (simp add: signed_modulo_int_def sgn_if)
  moreover have "0 \<le> sint t mod sint p" "sint t mod sint p < sint p"
    using assms(1) by simp_all
  ultimately show ?thesis using a by simp
qed

text \<open>
  Claim C1, as the code has it. For every timestamp \<open>t\<close> and every aggregation interval
  \<open>p > 0\<close> the alignment of line 62 returns a value \<open>a\<close>, aligning \<open>a\<close> again returns
  \<open>a\<close> (idempotence), and \<open>a\<close> is a multiple of \<open>p\<close>. The bounds
  \<open>a \<le> t < a + p\<close> hold for every timestamp \<open>t \<ge> 0\<close>; the comparison is on the integers
  the 64-bit values stand for. Timestamps are \<open>int64\<close> and Go's \<open>%\<close> truncates towards
  zero, so a negative timestamp is aligned upwards.
\<close>

theorem align_idempotent_and_floor:
  assumes "0 < sint p"
  shows "\<exists>a. align t p = Inr a \<and> align a p = Inr a \<and> sint a mod sint p = 0 \<and>
           (0 \<le> sint t \<longrightarrow> sint a \<le> sint t \<and> sint t < sint a + sint p)"
proof -
  from assms have nz: "p \<noteq> 0" by auto
  define a where "a = t - word_of_int (sint t smod sint p)"
  have al: "align t p = Inr a"
    using nz by (simp add: align_Inr a_def)
  have idem: "align a p = Inr a"
    using nz al by (rule align_idem)
  have "sint a = sint t - sint t smod sint p"
    unfolding a_def by (rule sint_align)
  then have "sint a = sint t sdiv sint p * sint p"
    by (simp add: minus_smod_eq_sdiv_mult)
  then have raster: "sint a mod sint p = 0" by simp
  have fl: "0 \<le> sint t \<longrightarrow> sint a \<le> sint t \<and> sint t < sint a + sint p"
    using align_floor [OF assms _ al] by (intro impI)
  show ?thesis
    by (rule exI [of _ a]) (intro conjI al idem raster fl)
qed

theorem align_idempotent_and_floor_witness:
  "0 < sint (300 :: int64) \<and> align 1017 300 = Inr 900 \<and> align 900 300 = Inr 900 \<and>
   sint (900 :: int64) \<le> sint (1017 :: int64) \<and>
   sint (1017 :: int64) < sint (900 :: int64) + sint (300 :: int64)"
proof -
  have p: "0 < sint (300 :: int64)" by simp
  have "align 1017 300 = Inr 900"
    by (simp add: align_def rem_int64_def signed_modulo_int_def)
  with align_idempotent_and_floor [OF p, of 1017] p show ?thesis by simp
qed

text \<open>
  Claim C1, as the spec states it, for every timestamp: at \<open>t = -7\<close> and \<open>p = 5\<close> the
  remainder is \<open>-2\<close>, the aligned timestamp is \<open>-5\<close>, and \<open>-5 \<le> -7\<close> does not hold.
\<close>

theorem align_negative_timestamp_counterexample:
  "0 < sint (5 :: int64) \<and> align (- 7) 5 = Inr (- 5) \<and> \<not> sint (- 5 :: int64) \<le> sint (- 7 :: int64)"
  by (simp add: align_def rem_int64_def signed_modulo_int_def)

subsection \<open>The worker's step\<close>

text \<open>
  Claim C10. The alignment has no guard: a worker's step on a flow panics with an integer
  division by zero exactly when the configured aggregation interval is zero, and returns
  (statistics and the flow to forward) exactly when it is not zero. \<open>New\<close> stores the
  interval it is given without a check.
\<close>

theorem annotate_panics_iff_aggregation_zero:
  "(annotate a st fl = Inl DivideByZero) = (aggregation a = 0) \<and>
   (\<exists>r. annotate a st fl = Inr r) = (aggregation a \<noteq> 0) \<and>
   aggregation (New nw aggr bgp bird dbg) = aggr"
proof (cases "aggregation a = 0")
  case True
  then have "annotate a st fl = Inl DivideByZero"
    by (simp add: annotate_def align_zero)
  with True show ?thesis by (simp add: New_def)
next
  case False
  then have "\<exists>r. annotate a st fl = Inr r"
    by (simp add: annotate_def align_Inr Let_def)
  with False show ?thesis by (auto simp: New_def)
qed

theorem annotate_panics_iff_aggregation_zero_witness:
  "annotate (New 4 0 False (\<lambda>f. f) 0)
     \<lparr> IPFIXpackets = 0, IPFIXbytes = 0, Flows4 = 0, Flows6 = 0, FlowBytes = 0, FlowPackets = 0 \<rparr>
     (zeroFlow\<lparr>Timestamp := 1017\<rparr>) = Inl DivideByZero \<and>
   (\<exists>r. annotate (New 4 300 False (\<lambda>f. f) 0)
     \<lparr> IPFIXpackets = 0, IPFIXbytes = 0, Flows4 = 0, Flows6 = 0, FlowBytes = 0, FlowPackets = 0 \<rparr>
     (zeroFlow\<lparr>Timestamp := 1017\<rparr>) = Inr r)"
  using annotate_panics_iff_aggregation_zero [of "New 4 0 False (\<lambda>f. f) 0"
      "\<lparr> IPFIXpackets = 0, IPFIXbytes = 0, Flows4 = 0, Flows6 = 0, FlowBytes = 0, FlowPackets = 0 \<rparr>"
      "zeroFlow\<lparr>Timestamp := 1017\<rparr>" 4 0 False "\<lambda>f. f" 0]
    annotate_panics_iff_aggregation_zero [of "New 4 300 False (\<lambda>f. f) 0"
      "\<lparr> IPFIXpackets = 0, IPFIXbytes = 0, Flows4 = 0, Flows6 = 0, FlowBytes = 0, FlowPackets = 0 \<rparr>"
      "zeroFlow\<lparr>Timestamp := 1017\<rparr>" 4 300 False "\<lambda>f. f" 0]
  by (simp add: New_def)

text \<open>
  Claim C9. With BGP augmentation disabled, the flow a worker forwards to the output
  channel is the flow it received with the \<open>Timestamp\<close> field replaced: every other field
  (router, family, counters, protocol, interfaces, ports, addresses, next hop, AS numbers)
  is the one received.
\<close>

theorem annotate_changes_only_timestamp:
  assumes "\<not> bgpAugment a" and "annotate a st fl = Inr (st', fl')"
  shows "fl' = fl\<lparr>Timestamp := Timestamp fl'\<rparr> \<and>
         Router fl' = Router fl \<and> Family fl' = Family fl \<and> Packets fl' = Packets fl \<and>
         Size fl' = Size fl \<and> Protocol fl' = Protocol fl \<and> IntIn fl' = IntIn fl \<and>
         IntOut fl' = IntOut fl \<and> SrcPort fl' = SrcPort fl \<and> DstPort fl' = DstPort fl \<and>
         SrcAddr fl' = SrcAddr fl \<and> DstAddr fl' = DstAddr fl \<and> NextHop fl' = NextHop fl \<and>
         SrcAs fl' = SrcAs fl \<and> DstAs fl' = DstAs fl"
proof -
  from assms obtain t where "fl' = fl\<lparr>Timestamp := t\<rparr>"
    by (auto simp: annotate_def Let_def split: sum.splits)
  then show ?thesis by simp
qed

theorem annotate_changes_only_timestamp_witness:
  "\<not> bgpAugment (New 1 300 False (\<lambda>f. f) 0) \<and>
   annotate (New 1 300 False (\<lambda>f. f) 0)
     \<lparr> IPFIXpackets = 0, IPFIXbytes = 0, Flows4 = 0, Flows6 = 0, FlowBytes = 0, FlowPackets = 0 \<rparr>
     (zeroFlow\<lparr>Timestamp := 1017, Packets := 3, Size := 1500, SrcAs := 64512\<rparr>)
   = Inr (\<lparr> IPFIXpackets = 0, IPFIXbytes = 0, Flows4 = 0, Flows6 = 0, FlowBytes = 1500, FlowPackets = 3 \<rparr>,
          zeroFlow\<lparr>Timestamp := 900, Packets := 3, Size := 1500, SrcAs := 64512\<rparr>) \<and>
   SrcAs (zeroFlow\<lparr>Timestamp := 900, Packets := 3, Size := 1500, SrcAs := 64512\<rparr>) = 64512"
proof -
  let ?a = "New 1 300 False (\<lambda>f. f) 0"
  let ?fl = "zeroFlow\<lparr>Timestamp := 1017, Packets := 3, Size := 1500, SrcAs := 64512\<rparr>"
  have r: "sint (1017 :: int64) smod sint (300 :: int64) = 117"
    by (simp add: signed_modulo_int_def)
  have a: "\<not> bgpAugment ?a" by (simp add: New_def)
  have b: "annotate ?a \<lparr> IPFIXpackets = 0, IPFIXbytes = 0, Flows4 = 0, Flows6 = 0, FlowBytes = 0, FlowPackets = 0 \<rparr> ?fl
     = Inr (\<lparr> IPFIXpackets = 0, IPFIXbytes = 0, Flows4 = 0, Flows6 = 0, FlowBytes = 1500, FlowPackets = 3 \<rparr>,
          zeroFlow\<lparr>Timestamp := 900, Packets := 3, Size := 1500, SrcAs := 64512\<rparr>)"
    by (simp add: annotate_def New_def align_def rem_int64_def zeroFlow_def r)
  from annotate_changes_only_timestamp [OF a b] a b show ?thesis by simp
qed

section \<open>The field layout resolver\<close>

text \<open>A slot that no field of the list maps to keeps its value; otherwise the last such field decides.\<close>

lemma fieldLoop_slot_absent:
  assumes step: "\<And>fm i ty. g (fieldSwitch fm i ty) = (if ty \<in> T then i else g fm)"
    and "\<forall>f \<in> set fs. Type f \<notin> T"
  shows "g (fieldLoop fm k fs) = g fm"
  using assms(2) by (induction fs arbitrary: fm k) (simp_all add: step)

lemma fieldLoop_slot_last:
  assumes step: "\<And>fm i ty. g (fieldSwitch fm i ty) = (if ty \<in> T then i else g fm)"
    and "n < length fs" and "Type (fs ! n) \<in> T"
    and "\<forall>j. n < j \<and> j < length fs \<longrightarrow> Type (fs ! j) \<notin> T"
  shows "g (fieldLoop fm k fs) = k + 1 + int n"
  using assms(2-4)
proof (induction fs arbitrary: fm k n)
  case Nil
  then show ?case by simp
next
  case (Cons f fs)
  show ?case
  proof (cases n)
    case 0
    have "\<forall>f' \<in> set fs. Type f' \<notin> T"
    proof
      fix f' assume "f' \<in> set fs"
      then obtain j where "j < length fs" "fs ! j = f'"
        by (auto simp: in_set_conv_nth)
      with Cons.prems(3) 0 show "Type f' \<notin> T"
        by (auto dest: spec [of _ "Suc j"])
    qed
    then have "g (fieldLoop (fieldSwitch fm (k + 1) (Type f)) (k + 1) fs)
        = g (fieldSwitch fm (k + 1) (Type f))"
      by (rule fieldLoop_slot_absent [OF step])
    with Cons.prems(2) 0 show ?thesis by (simp add: step)
  next
    case (Suc m)
    have "g (fieldLoop (fieldSwitch fm (k + 1) (Type f)) (k + 1) fs) = (k + 1) + 1 + int m"
    proof (rule Cons.IH)
      show "m < length fs" using Cons.prems(1) Suc by simp
      show "Type (fs ! m) \<in> T" using Cons.prems(2) Suc by simp
      show "\<forall>j. m < j \<and> j < length fs \<longrightarrow> Type (fs ! j) \<notin> T"
        using Cons.prems(3) Suc by (auto dest: spec [of _ "Suc j" for j])
    qed
    with Suc show ?thesis by simp
  qed
qed

lemma fieldLoop_family:
  "family (fieldLoop fm k fs) =
     (case filter (\<lambda>ty. ty = ipfix_IPv4SrcAddr \<or> ty = ipfix_IPv6SrcAddr) (map Type fs) of
        [] \<Rightarrow> family fm
      | ty # tys \<Rightarrow> if last (ty # tys) = ipfix_IPv4SrcAddr then 4 else 6)"
proof (induction fs arbitrary: fm k)
  case Nil
  then show ?case by simp
next
  case (Cons f fs)
  show ?case
    by (cases "Type f") (simp_all add: Cons.IH split: list.splits)
qed

lemma fieldSwitch_slot:
  "srcAddr (fieldSwitch fm i ty) = (if ty \<in> {ipfix_IPv4SrcAddr, ipfix_IPv6SrcAddr} then i else srcAddr fm)"
  "dstAddr (fieldSwitch fm i ty) = (if ty \<in> {ipfix_IPv4DstAddr, ipfix_IPv6DstAddr} then i else dstAddr fm)"
  "nextHop (fieldSwitch fm i ty) = (if ty \<in> {ipfix_IPv4NextHop, ipfix_IPv6NextHop} then i else nextHop fm)"
  "size_fm (fieldSwitch fm i ty) = (if ty \<in> {ipfix_InBytes} then i else size_fm fm)"
  "protocol (fieldSwitch fm i ty) = (if ty \<in> {ipfix_Protocol} then i else protocol fm)"
  "packets (fieldSwitch fm i ty) = (if ty \<in> {ipfix_InPkts} then i else packets fm)"
  "intIn (fieldSwitch fm i ty) = (if ty \<in> {ipfix_InputSnmp} then i else intIn fm)"
  "intOut (fieldSwitch fm i ty) = (if ty \<in> {ipfix_OutputSnmp} then i else intOut fm)"
  "srcPort (fieldSwitch fm i ty) = (if ty \<in> {ipfix_L4SrcPort} then i else srcPort fm)"
  "dstPort (fieldSwitch fm i ty) = (if ty \<in> {ipfix_L4DstPort} then i else dstPort fm)"
  "srcAsn (fieldSwitch fm i ty) = (if ty \<in> {ipfix_SrcAs} then i else srcAsn fm)"
  "dstAsn (fieldSwitch fm i ty) = (if ty \<in> {ipfix_DstAs} then i else dstAsn fm)"
  by (cases ty; simp)+

text \<open>
  Claim C3, as the code has it. The resolver walks the field list once, in order
  (\<open>fieldLoop\<close>). Let \<open>T\<close> be the set of type codes that one slot is filled from: both
  address-family variants for the source address, the destination address and the next
  hop, one type code for each other slot. If the field at index \<open>n\<close> has a type in
  \<open>T\<close> and no later field has, the slot holds \<open>n\<close>: the index of the last field that
  maps to the slot.
\<close>

theorem generateFieldMap_last_occurrence:
  assumes "n < length (Records template)"
    and "Type (Records template ! n) \<in> T"
    and "\<forall>j. n < j \<and> j < length (Records template) \<longrightarrow> Type (Records template ! j) \<notin> T"
  shows "(T = {ipfix_IPv4SrcAddr, ipfix_IPv6SrcAddr} \<longrightarrow> srcAddr (generateFieldMap template) = int n) \<and>
         (T = {ipfix_IPv4DstAddr, ipfix_IPv6DstAddr} \<longrightarrow> dstAddr (generateFieldMap template) = int n) \<and>
         (T = {ipfix_IPv4NextHop, ipfix_IPv6NextHop} \<longrightarrow> nextHop (generateFieldMap template) = int n) \<and>
         (T = {ipfix_InBytes} \<longrightarrow> size_fm (generateFieldMap template) = int n) \<and>
         (T = {ipfix_Protocol} \<longrightarrow> protocol (generateFieldMap template) = int n) \<and>
         (T = {ipfix_InPkts} \<longrightarrow> packets (generateFieldMap template) = int n) \<and>
         (T = {ipfix_InputSnmp} \<longrightarrow> intIn (generateFieldMap template) = int n) \<and>
         (T = {ipfix_OutputSnmp} \<longrightarrow> intOut (generateFieldMap template) = int n) \<and>
         (T = {ipfix_L4SrcPort} \<longrightarrow> srcPort (generateFieldMap template) = int n) \<and>
         (T = {ipfix_L4DstPort} \<longrightarrow> dstPort (generateFieldMap template) = int n) \<and>
         (T = {ipfix_SrcAs} \<longrightarrow> srcAsn (generateFieldMap template) = int n) \<and>
         (T = {ipfix_DstAs} \<longrightarrow> dstAsn (generateFieldMap template) = int n)"
proof -
  have slot: "g (generateFieldMap template) = int n"
    if "\<And>fm i ty. g (fieldSwitch fm i ty) = (if ty \<in> T then i else g fm)" for g
    using fieldLoop_slot_last [of g T n "Records template" zeroFieldMap "- 1", OF that assms]
    by (simp add: generateFieldMap_def)
  show ?thesis
  proof (intro conjI impI)
    assume "T = {ipfix_IPv4SrcAddr, ipfix_IPv6SrcAddr}"
    then show "srcAddr (generateFieldMap template) = int n"
      by (intro slot [of srcAddr]) (simp only: fieldSwitch_slot)
  next
    assume "T = {ipfix_IPv4DstAddr, ipfix_IPv6DstAddr}"
    then show "dstAddr (generateFieldMap template) = int n"
      by (intro slot [of dstAddr]) (simp only: fieldSwitch_slot)
  next
    assume "T = {ipfix_IPv4NextHop, ipfix_IPv6NextHop}"
    then show "nextHop (generateFieldMap template) = int n"
      by (intro slot [of nextHop]) (simp only: fieldSwitch_slot)
  next
    assume "T = {ipfix_InBytes}"
    then show "size_fm (generateFieldMap template) = int n"
      by (intro slot [of size_fm]) (simp only: fieldSwitch_slot)
  next
    assume "T = {ipfix_Protocol}"
    then show "protocol (generateFieldMap template) = int n"
      by (intro slot [of protocol]) (simp only: fieldSwitch_slot)
  next
    assume "T = {ipfix_InPkts}"
    then show "packets (generateFieldMap template) = int n"
      by (intro slot [of packets]) (simp only: fieldSwitch_slot)
  next
    assume "T = {ipfix_InputSnmp}"
    then show "intIn (generateFieldMap template) = int n"
      by (intro slot [of intIn]) (simp only: fieldSwitch_slot)
  next
    assume "T = {ipfix_OutputSnmp}"
    then show "intOut (generateFieldMap template) = int n"
      by (intro slot [of intOut]) (simp only: fieldSwitch_slot)
  next
    assume "T = {ipfix_L4SrcPort}"
    then show "srcPort (generateFieldMap template) = int n"
      by (intro slot [of srcPort]) (simp only: fieldSwitch_slot)
  next
    assume "T = {ipfix_L4DstPort}"
    then show "dstPort (generateFieldMap template) = int n"
      by (intro slot [of dstPort]) (simp only: fieldSwitch_slot)
  next
    assume "T = {ipfix_SrcAs}"
    then show "srcAsn (generateFieldMap template) = int n"
      by (intro slot [of srcAsn]) (simp only: fieldSwitch_slot)
  next
    assume "T = {ipfix_DstAs}"
    then show "dstAsn (generateFieldMap template) = int n"
      by (intro slot [of dstAsn]) (simp only: fieldSwitch_slot)
  qed
qed

theorem generateFieldMap_last_occurrence_witness:
  "packets (generateFieldMap \<lparr> TemplateID = 256, PacketDomainID = 0, Records =
       [\<lparr>Type = ipfix_IPv4SrcAddr, Length = 4\<rparr>, \<lparr>Type = ipfix_InPkts, Length = 4\<rparr>,
        \<lparr>Type = ipfix_Other 99, Length = 2\<rparr>, \<lparr>Type = ipfix_InPkts, Length = 4\<rparr>,
        \<lparr>Type = ipfix_IPv4DstAddr, Length = 4\<rparr>] \<rparr>) = 3"
proof -
  let ?t = "\<lparr> TemplateID = 256, PacketDomainID = 0, Records =
       [\<lparr>Type = ipfix_IPv4SrcAddr, Length = 4\<rparr>, \<lparr>Type = ipfix_InPkts, Length = 4\<rparr>,
        \<lparr>Type = ipfix_Other 99, Length = 2\<rparr>, \<lparr>Type = ipfix_InPkts, Length = 4\<rparr>,
        \<lparr>Type = ipfix_IPv4DstAddr, Length = 4\<rparr>] \<rparr>"
  have a: "3 < length (Records ?t)" by simp
  have b: "Type (Records ?t ! 3) \<in> {ipfix_InPkts}" by simp
  have c: "\<forall>j. 3 < j \<and> j < length (Records ?t) \<longrightarrow> Type (Records ?t ! j) \<notin> {ipfix_InPkts}"
  proof (intro allI impI)
    fix j assume "3 < j \<and> j < length (Records ?t)"
    then have "j = 4" by simp
    then show "Type (Records ?t ! j) \<notin> {ipfix_InPkts}" by simp
  qed
  from generateFieldMap_last_occurrence [OF a b c] show ?thesis by simp
qed

text \<open>
  Claim C3, as the spec states it, for the last occurrence of a field type: in the
  template (IPv4 source address, IPv4 source address, IPv6 source address) the type
  IPv4 source address occurs twice, last at index 1, and the source-address slot does
  not hold 1 (it holds 2, the index of the IPv6 variant).
\<close>

theorem generateFieldMap_shared_slot_counterexample:
  "Type (Records \<lparr> TemplateID = 256, PacketDomainID = 0, Records =
       [\<lparr>Type = ipfix_IPv4SrcAddr, Length = 4\<rparr>, \<lparr>Type = ipfix_IPv4SrcAddr, Length = 4\<rparr>,
        \<lparr>Type = ipfix_IPv6SrcAddr, Length = 16\<rparr>] \<rparr> ! 0) = ipfix_IPv4SrcAddr \<and>
   Type (Records \<lparr> TemplateID = 256, PacketDomainID = 0, Records =
       [\<lparr>Type = ipfix_IPv4SrcAddr, Length = 4\<rparr>, \<lparr>Type = ipfix_IPv4SrcAddr, Length = 4\<rparr>,
        \<lparr>Type = ipfix_IPv6SrcAddr, Length = 16\<rparr>] \<rparr> ! 1) = ipfix_IPv4SrcAddr \<and>
   Type (Records \<lparr> TemplateID = 256, PacketDomainID = 0, Records =
       [\<lparr>Type = ipfix_IPv4SrcAddr, Length = 4\<rparr>, \<lparr>Type = ipfix_IPv4SrcAddr, Length = 4\<rparr>,
        \<lparr>Type = ipfix_IPv6SrcAddr, Length = 16\<rparr>] \<rparr> ! 2) \<noteq> ipfix_IPv4SrcAddr \<and>
   srcAddr (generateFieldMap \<lparr> TemplateID = 256, PacketDomainID = 0, Records =
       [\<lparr>Type = ipfix_IPv4SrcAddr, Length = 4\<rparr>, \<lparr>Type = ipfix_IPv4SrcAddr, Length = 4\<rparr>,
        \<lparr>Type = ipfix_IPv6SrcAddr, Length = 16\<rparr>] \<rparr>) \<noteq> 1"
  by (simp add: generateFieldMap_def)

text \<open>
  Claim C4. In the \<open>switch\<close>, an IPv4 source-address field sets the family to 4, an IPv6
  source-address field sets it to 6, and no other field type changes it; a field whose
  type code is not one of the fifteen recognized ones leaves the whole layout unchanged,
  and the loop goes on with the next index. For the resolver as a whole: the family is 0
  when the template has no source-address field, and otherwise 4 or 6 as its last
  source-address field is the IPv4 or the IPv6 one.
\<close>

theorem generateFieldMap_family_and_skip:
  "family (fieldSwitch fm i ipfix_IPv4SrcAddr) = 4 \<and>
   family (fieldSwitch fm i ipfix_IPv6SrcAddr) = 6 \<and>
   (ty \<noteq> ipfix_IPv4SrcAddr \<and> ty \<noteq> ipfix_IPv6SrcAddr \<longrightarrow> family (fieldSwitch fm i ty) = family fm) \<and>
   fieldSwitch fm i (ipfix_Other c) = fm \<and>
   (Type f = ipfix_Other c \<longrightarrow> fieldLoop fm i (f # fs) = fieldLoop fm (i + 1) fs) \<and>
   family (generateFieldMap template) =
     (case filter (\<lambda>ty. ty = ipfix_IPv4SrcAddr \<or> ty = ipfix_IPv6SrcAddr) (map Type (Records template)) of
        [] \<Rightarrow> 0
      | ty # tys \<Rightarrow> if last (ty # tys) = ipfix_IPv4SrcAddr then 4 else 6)"
proof -
  have "ty \<noteq> ipfix_IPv4SrcAddr \<and> ty \<noteq> ipfix_IPv6SrcAddr \<longrightarrow> family (fieldSwitch fm i ty) = family fm"
    by (cases ty) simp_all
  moreover have "family (generateFieldMap template) =
     (case filter (\<lambda>ty. ty = ipfix_IPv4SrcAddr \<or> ty = ipfix_IPv6SrcAddr) (map Type (Records template)) of
        [] \<Rightarrow> 0
      | ty # tys \<Rightarrow> if last (ty # tys) = ipfix_IPv4SrcAddr then 4 else 6)"
    by (simp add: generateFieldMap_def fieldLoop_family zeroFieldMap_def split: list.splits)
  ultimately show ?thesis by simp
qed

theorem generateFieldMap_family_and_skip_witness:
  "family (fieldSwitch zeroFieldMap 2 ipfix_InPkts) = family zeroFieldMap \<and>
   fieldLoop zeroFieldMap (- 1) [\<lparr>Type = ipfix_Other 99, Length = 2\<rparr>, \<lparr>Type = ipfix_IPv6SrcAddr, Length = 16\<rparr>]
     = fieldLoop zeroFieldMap 0 [\<lparr>Type = ipfix_IPv6SrcAddr, Length = 16\<rparr>] \<and>
   family (generateFieldMap \<lparr> TemplateID = 256, PacketDomainID = 0, Records =
     [\<lparr>Type = ipfix_Other 99, Length = 2\<rparr>, \<lparr>Type = ipfix_IPv6SrcAddr, Length = 16\<rparr>,
      \<lparr>Type = ipfix_IPv6DstAddr, Length = 16\<rparr>] \<rparr>) = 6"
  using generateFieldMap_family_and_skip [of zeroFieldMap 2 ipfix_InPkts 99
      "\<lparr>Type = ipfix_Other 99, Length = 2\<rparr>" "[\<lparr>Type = ipfix_IPv6SrcAddr, Length = 16\<rparr>]"
      "\<lparr> TemplateID = 256, PacketDomainID = 0, Records =
     [\<lparr>Type = ipfix_Other 99, Length = 2\<rparr>, \<lparr>Type = ipfix_IPv6SrcAddr, Length = 16\<rparr>,
      \<lparr>Type = ipfix_IPv6DstAddr, Length = 16\<rparr>] \<rparr>"]
    generateFieldMap_family_and_skip [of zeroFieldMap "- 1" ipfix_InPkts 99
      "\<lparr>Type = ipfix_Other 99, Length = 2\<rparr>" "[\<lparr>Type = ipfix_IPv6SrcAddr, Length = 16\<rparr>]"
      "\<lparr> TemplateID = 256, PacketDomainID = 0, Records =
     [\<lparr>Type = ipfix_Other 99, Length = 2\<rparr>, \<lparr>Type = ipfix_IPv6SrcAddr, Length = 16\<rparr>,
      \<lparr>Type = ipfix_IPv6DstAddr, Length = 16\<rparr>] \<rparr>"]
  by simp

section \<open>Flows built from data records\<close>

lemma bindP_Inr: "(bindP m f = Inr y) = (\<exists>x. m = Inr x \<and> f x = Inr y)"
  by (cases m) (simp_all add: bindP_def)

lemma valueAt_Inr:
  "(valueAt r i = Inr v) = (0 \<le> i \<and> i < int (length (Values r)) \<and> v = Values r ! nat i)"
  by (auto simp: valueAt_def)

lemma makeFlow_fields:
  assumes "makeFlow bgp fm r agent t = Inr fl"
  shows "Router fl = agent \<and> Timestamp fl = t \<and> Family fl = word_of_int (family fm) \<and>
    Packets fl = Uint32 (Values r ! nat (packets fm)) \<and>
    Size fl = ucast (Uint32 (Values r ! nat (size_fm fm))) \<and>
    Protocol fl = Uint32 (Values r ! nat (protocol fm)) \<and>
    IntIn fl = Uint32 (Values r ! nat (intIn fm)) \<and>
    IntOut fl = Uint32 (Values r ! nat (intOut fm)) \<and>
    SrcPort fl = Uint32 (Values r ! nat (srcPort fm)) \<and>
    DstPort fl = Uint32 (Values r ! nat (dstPort fm)) \<and>
    SrcAddr fl = Reverse (Values r ! nat (srcAddr fm)) \<and>
    DstAddr fl = Reverse (Values r ! nat (dstAddr fm)) \<and>
    NextHop fl = Reverse (Values r ! nat (nextHop fm)) \<and>
    (if bgp then SrcAs fl = 0 \<and> DstAs fl = 0
     else SrcAs fl = Uint32 (Values r ! nat (srcAsn fm)) \<and>
          DstAs fl = Uint32 (Values r ! nat (dstAsn fm)))"
  using assms
  by (cases bgp) (auto simp: makeFlow_def bindP_Inr valueAt_Inr Let_def zeroFlow_def)

text \<open>A flow is built only when every index read lies inside the record.\<close>

lemma makeFlow_in_range:
  assumes "makeFlow bgp fm r agent t = Inr fl"
  shows "list_all (\<lambda>i. 0 \<le> i \<and> i < int (length (Values r)))
           [packets fm, size_fm fm, protocol fm, intIn fm, intOut fm, srcPort fm, dstPort fm,
            srcAddr fm, dstAddr fm, nextHop fm] \<and>
         (\<not> bgp \<longrightarrow> list_all (\<lambda>i. 0 \<le> i \<and> i < int (length (Values r))) [srcAsn fm, dstAsn fm])"
  using assms
  by (cases bgp) (auto simp: makeFlow_def bindP_Inr valueAt_Inr Let_def)

lemma processRecord_Inr:
  assumes "processRecord fm agent t s r = Inr s'"
  shows "tmplCache s' = tmplCache s \<and> ifs_bgpAugment s' = ifs_bgpAugment s \<and>
     IPFIXpackets (stats s') = IPFIXpackets (stats s) \<and> IPFIXbytes (stats s') = IPFIXbytes (stats s) \<and>
     (if family fm = 4 \<or> family fm = 6
      then \<exists>fl. makeFlow (ifs_bgpAugment s) fm r agent t = Inr fl \<and> Output s' = Output s @ [fl]
      else Output s' = Output s)"
  using assms
  by (auto simp: processRecord_def bindP_Inr Let_def split: if_splits)

lemma processRecords_flows:
  assumes "processRecords fm agent t s rs = Inr s'"
  shows "tmplCache s' = tmplCache s \<and> ifs_bgpAugment s' = ifs_bgpAugment s \<and>
     IPFIXpackets (stats s') = IPFIXpackets (stats s) \<and> IPFIXbytes (stats s') = IPFIXbytes (stats s) \<and>
     (\<exists>fls. Output s' = Output s @ fls \<and>
        list_all2 (\<lambda>fl r. makeFlow (ifs_bgpAugment s) fm r agent t = Inr fl) fls
          (if family fm = 4 \<or> family fm = 6 then rs else []))"
  using assms
proof (induction rs arbitrary: s)
  case Nil
  then show ?case by simp
next
  case (Cons r rs)
  from Cons.prems obtain s1 where
    s1: "processRecord fm agent t s r = Inr s1" and rest: "processRecords fm agent t s1 rs = Inr s'"
    by (auto split: sum.splits)
  note h1 = processRecord_Inr [OF s1]
  note h2 = Cons.IH [OF rest]
  from h2 obtain fls where fls: "Output s' = Output s1 @ fls"
    "list_all2 (\<lambda>fl r. makeFlow (ifs_bgpAugment s1) fm r agent t = Inr fl) fls
          (if family fm = 4 \<or> family fm = 6 then rs else [])"
    by blast
  show ?case
  proof (cases "family fm = 4 \<or> family fm = 6")
    case True
    with h1 obtain fl where fl: "makeFlow (ifs_bgpAugment s) fm r agent t = Inr fl"
      "Output s1 = Output s @ [fl]" by auto
    have "Output s' = Output s @ (fl # fls) \<and>
        list_all2 (\<lambda>fl r. makeFlow (ifs_bgpAugment s) fm r agent t = Inr fl) (fl # fls) (r # rs)"
      using fl fls True h1 by simp
    then have "\<exists>fls'. Output s' = Output s @ fls' \<and>
        list_all2 (\<lambda>fl r. makeFlow (ifs_bgpAugment s) fm r agent t = Inr fl) fls' (r # rs)"
      by (rule exI)
    then show ?thesis using True h1 h2 by simp
  next
    case False
    with h1 h2 fls show ?thesis by simp
  qed
qed

text \<open>The flows a data set adds to the output are the flows built from its records, in order.\<close>

lemma processFlowSet_flows:
  assumes "processFlowSet template records agent t s = Inr s'"
    and "family (generateFieldMap template) = 4 \<or> family (generateFieldMap template) = 6"
  shows "\<exists>fls. Output s' = Output s @ fls \<and>
     list_all2 (\<lambda>fl r. makeFlow (ifs_bgpAugment s) (generateFieldMap template) r agent t = Inr fl)
       fls records"
  using processRecords_flows [of "generateFieldMap template" agent t s records s'] assms
  by (simp add: processFlowSet_def)

lemma Uint32_four: "Uint32 [a, b, c, d] = ucast a * 2 ^ 24 + ucast b * 2 ^ 16 + ucast c * 2 ^ 8 + ucast d"
  by (simp add: Uint32_def algebra_simps)

lemma generateFieldMap_absent:
  assumes "\<And>fm i ty. g (fieldSwitch fm i ty) = (if ty \<in> T then i else g fm)"
    and "\<forall>f \<in> set (Records template). Type f \<notin> T"
  shows "g (generateFieldMap template) = g zeroFieldMap"
  unfolding generateFieldMap_def using assms by (rule fieldLoop_slot_absent)

lemma Uint32_examples:
  "Uint32 [1, 0, 0, 10] = 16777226" "Uint32 [0, 0, 5, 220] = 1500" "Uint32 [0, 0, 0, 1] = 1"
  "Uint32 [6] = 6" "Uint32 [10, 0, 0, 10] = 167772170" "Uint32 [0, 0, 252, 0] = 64512"
  "Uint32 [0, 0, 253, 232] = 65000"
  by (simp_all add: Uint32_def)

text \<open>
  Claim C5, with \<open>convert.Reverse\<close> and \<open>convert.Uint32\<close> as the spec describes them. For
  every record of a data set from which a flow is built, the source address, the
  destination address and the next hop of the flow are the byte-order reversals of the
  record's values at the resolved indices, and the scalar fields (packets, size, protocol,
  interfaces, ports and, when BGP augmentation is off, the AS numbers) are the record's
  values at the resolved indices decoded by \<open>Uint32\<close>, with no reversal: the first byte
  of a value is the most significant one.
\<close>

theorem processFlowSet_reverses_addresses_only:
  assumes "processFlowSet template records agent t s = Inr s'"
    and "family (generateFieldMap template) = 4 \<or> family (generateFieldMap template) = 6"
  shows "(\<exists>fls. Output s' = Output s @ fls \<and>
     list_all2 (\<lambda>fl r.
        SrcAddr fl = Reverse (Values r ! nat (srcAddr (generateFieldMap template))) \<and>
        DstAddr fl = Reverse (Values r ! nat (dstAddr (generateFieldMap template))) \<and>
        NextHop fl = Reverse (Values r ! nat (nextHop (generateFieldMap template))) \<and>
        Packets fl = Uint32 (Values r ! nat (packets (generateFieldMap template))) \<and>
        Size fl = ucast (Uint32 (Values r ! nat (size_fm (generateFieldMap template)))) \<and>
        Protocol fl = Uint32 (Values r ! nat (protocol (generateFieldMap template))) \<and>
        IntIn fl = Uint32 (Values r ! nat (intIn (generateFieldMap template))) \<and>
        IntOut fl = Uint32 (Values r ! nat (intOut (generateFieldMap template))) \<and>
        SrcPort fl = Uint32 (Values r ! nat (srcPort (generateFieldMap template))) \<and>
        DstPort fl = Uint32 (Values r ! nat (dstPort (generateFieldMap template))) \<and>
        (\<not> ifs_bgpAugment s \<longrightarrow>
           SrcAs fl = Uint32 (Values r ! nat (srcAsn (generateFieldMap template))) \<and>
           DstAs fl = Uint32 (Values r ! nat (dstAsn (generateFieldMap template)))))
       fls records) \<and>
     Reverse [a, b, c, d] = [d, c, b, a] \<and>
     Uint32 [a, b, c, d] = ucast a * 2 ^ 24 + ucast b * 2 ^ 16 + ucast c * 2 ^ 8 + ucast d"
proof -
  from processFlowSet_flows [OF assms] obtain fls where
    out: "Output s' = Output s @ fls" and
    mk: "list_all2 (\<lambda>fl r. makeFlow (ifs_bgpAugment s) (generateFieldMap template) r agent t = Inr fl)
       fls records"
    by blast
  have "list_all2 (\<lambda>fl r.
        SrcAddr fl = Reverse (Values r ! nat (srcAddr (generateFieldMap template))) \<and>
        DstAddr fl = Reverse (Values r ! nat (dstAddr (generateFieldMap template))) \<and>
        NextHop fl = Reverse (Values r ! nat (nextHop (generateFieldMap template))) \<and>
        Packets fl = Uint32 (Values r ! nat (packets (generateFieldMap template))) \<and>
        Size fl = ucast (Uint32 (Values r ! nat (size_fm (generateFieldMap template)))) \<and>
        Protocol fl = Uint32 (Values r ! nat (protocol (generateFieldMap template))) \<and>
        IntIn fl = Uint32 (Values r ! nat (intIn (generateFieldMap template))) \<and>
        IntOut fl = Uint32 (Values r ! nat (intOut (generateFieldMap template))) \<and>
        SrcPort fl = Uint32 (Values r ! nat (srcPort (generateFieldMap template))) \<and>
        DstPort fl = Uint32 (Values r ! nat (dstPort (generateFieldMap template))) \<and>
        (\<not> ifs_bgpAugment s \<longrightarrow>
           SrcAs fl = Uint32 (Values r ! nat (srcAsn (generateFieldMap template))) \<and>
           DstAs fl = Uint32 (Values r ! nat (dstAsn (generateFieldMap template)))))
       fls records"
    using mk
  proof (rule list_all2_mono)
    fix fl r
    assume "makeFlow (ifs_bgpAugment s) (generateFieldMap template) r agent t = Inr fl"
    from makeFlow_fields [OF this]
    show "SrcAddr fl = Reverse (Values r ! nat (srcAddr (generateFieldMap template))) \<and>
        DstAddr fl = Reverse (Values r ! nat (dstAddr (generateFieldMap template))) \<and>
        NextHop fl = Reverse (Values r ! nat (nextHop (generateFieldMap template))) \<and>
        Packets fl = Uint32 (Values r ! nat (packets (generateFieldMap template))) \<and>
        Size fl = ucast (Uint32 (Values r ! nat (size_fm (generateFieldMap template)))) \<and>
        Protocol fl = Uint32 (Values r ! nat (protocol (generateFieldMap template))) \<and>
        IntIn fl = Uint32 (Values r ! nat (intIn (generateFieldMap template))) \<and>
        IntOut fl = Uint32 (Values r ! nat (intOut (generateFieldMap template))) \<and>
        SrcPort fl = Uint32 (Values r ! nat (srcPort (generateFieldMap template))) \<and>
        DstPort fl = Uint32 (Values r ! nat (dstPort (generateFieldMap template))) \<and>
        (\<not> ifs_bgpAugment s \<longrightarrow>
           SrcAs fl = Uint32 (Values r ! nat (srcAsn (generateFieldMap template))) \<and>
           DstAs fl = Uint32 (Values r ! nat (dstAsn (generateFieldMap template))))"
      by (simp split: if_splits)
  qed
  with out show ?thesis
    by (simp add: Reverse_def Uint32_four)
qed

theorem processFlowSet_reverses_addresses_only_witness:
  "family (generateFieldMap \<lparr> TemplateID = 256, PacketDomainID = 0, Records =
       [\<lparr>Type = ipfix_IPv4SrcAddr, Length = 4\<rparr>, \<lparr>Type = ipfix_IPv4DstAddr, Length = 4\<rparr>,
        \<lparr>Type = ipfix_InBytes, Length = 4\<rparr>, \<lparr>Type = ipfix_InPkts, Length = 4\<rparr>,
        \<lparr>Type = ipfix_Protocol, Length = 1\<rparr>] \<rparr>) = 4 \<and>
   (\<exists>s'. processFlowSet
       \<lparr> TemplateID = 256, PacketDomainID = 0, Records =
         [\<lparr>Type = ipfix_IPv4SrcAddr, Length = 4\<rparr>, \<lparr>Type = ipfix_IPv4DstAddr, Length = 4\<rparr>,
          \<lparr>Type = ipfix_InBytes, Length = 4\<rparr>, \<lparr>Type = ipfix_InPkts, Length = 4\<rparr>,
          \<lparr>Type = ipfix_Protocol, Length = 1\<rparr>] \<rparr>
       [\<lparr>Values = [[1, 0, 0, 10], [2, 0, 0, 10], [0, 0, 5, 220], [0, 0, 0, 1], [6]]\<rparr>]
       [192, 0, 2, 1] 1017 (newIPFIXServer False 0) = Inr s' \<and>
     map SrcAddr (Output s') = [[10, 0, 0, 1]] \<and> map DstAddr (Output s') = [[10, 0, 0, 2]] \<and>
     map NextHop (Output s') = [[10, 0, 0, 1]] \<and>
     map Packets (Output s') = [1] \<and> map Size (Output s') = [1500] \<and>
     map Protocol (Output s') = [6]) \<and>
   Uint32 (Reverse [0, 0, 5, 220]) \<noteq> Uint32 [0, 0, 5, 220]"
proof -
  let ?T = "\<lparr> TemplateID = 256, PacketDomainID = 0, Records =
       [\<lparr>Type = ipfix_IPv4SrcAddr, Length = 4\<rparr>, \<lparr>Type = ipfix_IPv4DstAddr, Length = 4\<rparr>,
        \<lparr>Type = ipfix_InBytes, Length = 4\<rparr>, \<lparr>Type = ipfix_InPkts, Length = 4\<rparr>,
        \<lparr>Type = ipfix_Protocol, Length = 1\<rparr>] \<rparr>"
  let ?R = "\<lparr>Values = [[1, 0, 0, 10], [2, 0, 0, 10], [0, 0, 5, 220], [0, 0, 0, 1], [6 :: byte]]\<rparr>"
  have fm: "generateFieldMap ?T =
      zeroFieldMap\<lparr>srcAddr := 0, family := 4, dstAddr := 1, size_fm := 2, packets := 3, protocol := 4\<rparr>"
    by (simp add: generateFieldMap_def)
  have fam: "family (generateFieldMap ?T) = 4 \<or> family (generateFieldMap ?T) = 6"
    by (simp add: fm)
  have "\<exists>s'. processFlowSet ?T [?R] [192, 0, 2, 1] 1017 (newIPFIXServer False 0) = Inr s'"
    by (simp add: processFlowSet_def fm processRecord_def makeFlow_def bindP_def valueAt_def
        zeroFieldMap_def newIPFIXServer_def Let_def)
  then obtain s' where
    run: "processFlowSet ?T [?R] [192, 0, 2, 1] 1017 (newIPFIXServer False 0) = Inr s'" ..
  from processFlowSet_reverses_addresses_only [OF run fam, of 0 0 5 220]
  obtain fls where "Output s' = Output (newIPFIXServer False 0) @ fls"
    and "list_all2 (\<lambda>fl r.
        SrcAddr fl = Reverse (Values r ! nat (srcAddr (generateFieldMap ?T))) \<and>
        DstAddr fl = Reverse (Values r ! nat (dstAddr (generateFieldMap ?T))) \<and>
        NextHop fl = Reverse (Values r ! nat (nextHop (generateFieldMap ?T))) \<and>
        Packets fl = Uint32 (Values r ! nat (packets (generateFieldMap ?T))) \<and>
        Size fl = ucast (Uint32 (Values r ! nat (size_fm (generateFieldMap ?T)))) \<and>
        Protocol fl = Uint32 (Values r ! nat (protocol (generateFieldMap ?T))) \<and>
        IntIn fl = Uint32 (Values r ! nat (intIn (generateFieldMap ?T))) \<and>
        IntOut fl = Uint32 (Values r ! nat (intOut (generateFieldMap ?T))) \<and>
        SrcPort fl = Uint32 (Values r ! nat (srcPort (generateFieldMap ?T))) \<and>
        DstPort fl = Uint32 (Values r ! nat (dstPort (generateFieldMap ?T))) \<and>
        (\<not> ifs_bgpAugment (newIPFIXServer False 0) \<longrightarrow>
           SrcAs fl = Uint32 (Values r ! nat (srcAsn (generateFieldMap ?T))) \<and>
           DstAs fl = Uint32 (Values r ! nat (dstAsn (generateFieldMap ?T)))))
       fls [?R]"
    by blast
  then have "map SrcAddr (Output s') = [[10, 0, 0, 1]] \<and> map DstAddr (Output s') = [[10, 0, 0, 2]] \<and>
     map NextHop (Output s') = [[10, 0, 0, 1]] \<and>
     map Packets (Output s') = [1] \<and> map Size (Output s') = [1500] \<and>
     map Protocol (Output s') = [6]"
    by (auto simp: list_all2_Cons2 newIPFIXServer_def fm zeroFieldMap_def Reverse_def Uint32_examples)
  moreover have "Uint32 (Reverse [0, 0, 5, 220]) \<noteq> Uint32 [0, 0, 5, 220]"
    by (simp add: Uint32_def Reverse_def)
  ultimately show ?thesis using run fm by simp
qed

text \<open>
  Claim C8. For every record of a data set from which a flow is built: with BGP
  augmentation enabled the flow's source and destination AS numbers are zero; with BGP
  augmentation disabled they are the record's values at the resolved AS-field indices,
  decoded by \<open>Uint32\<close>.
\<close>

theorem processFlowSet_AS_fields:
  assumes "processFlowSet template records agent t s = Inr s'"
    and "family (generateFieldMap template) = 4 \<or> family (generateFieldMap template) = 6"
  shows "\<exists>fls. Output s' = Output s @ fls \<and>
     list_all2 (\<lambda>fl r.
        if ifs_bgpAugment s then SrcAs fl = 0 \<and> DstAs fl = 0
        else list_all (\<lambda>i. 0 \<le> i \<and> i < int (length (Values r)))
               [srcAsn (generateFieldMap template), dstAsn (generateFieldMap template)] \<and>
             SrcAs fl = Uint32 (Values r ! nat (srcAsn (generateFieldMap template))) \<and>
             DstAs fl = Uint32 (Values r ! nat (dstAsn (generateFieldMap template))))
       fls records"
proof -
  from processFlowSet_flows [OF assms] obtain fls where
    out: "Output s' = Output s @ fls" and
    mk: "list_all2 (\<lambda>fl r. makeFlow (ifs_bgpAugment s) (generateFieldMap template) r agent t = Inr fl)
       fls records"
    by blast
  have "list_all2 (\<lambda>fl r.
        if ifs_bgpAugment s then SrcAs fl = 0 \<and> DstAs fl = 0
        else list_all (\<lambda>i. 0 \<le> i \<and> i < int (length (Values r)))
               [srcAsn (generateFieldMap template), dstAsn (generateFieldMap template)] \<and>
             SrcAs fl = Uint32 (Values r ! nat (srcAsn (generateFieldMap template))) \<and>
             DstAs fl = Uint32 (Values r ! nat (dstAsn (generateFieldMap template))))
       fls records"
    using mk
  proof (rule list_all2_mono)
    fix fl r
    assume m: "makeFlow (ifs_bgpAugment s) (generateFieldMap template) r agent t = Inr fl"
    from makeFlow_fields [OF m] makeFlow_in_range [OF m]
    show "if ifs_bgpAugment s then SrcAs fl = 0 \<and> DstAs fl = 0
        else list_all (\<lambda>i. 0 \<le> i \<and> i < int (length (Values r)))
               [srcAsn (generateFieldMap template), dstAsn (generateFieldMap template)] \<and>
             SrcAs fl = Uint32 (Values r ! nat (srcAsn (generateFieldMap template))) \<and>
             DstAs fl = Uint32 (Values r ! nat (dstAsn (generateFieldMap template)))"
      by (cases "ifs_bgpAugment s") simp_all
  qed
  with out show ?thesis by blast
qed

theorem processFlowSet_AS_fields_witness:
  "(\<exists>s'. processFlowSet
       \<lparr> TemplateID = 256, PacketDomainID = 0, Records =
         [\<lparr>Type = ipfix_IPv4SrcAddr, Length = 4\<rparr>, \<lparr>Type = ipfix_IPv4DstAddr, Length = 4\<rparr>,
          \<lparr>Type = ipfix_SrcAs, Length = 4\<rparr>, \<lparr>Type = ipfix_DstAs, Length = 4\<rparr>] \<rparr>
       [\<lparr>Values = [[1, 0, 0, 10], [2, 0, 0, 10], [0, 0, 252, 0], [0, 0, 253, 232]]\<rparr>]
       [192, 0, 2, 1] 1017 (newIPFIXServer False 0) = Inr s' \<and>
     map SrcAs (Output s') = [64512] \<and> map DstAs (Output s') = [65000]) \<and>
   (\<exists>s'. processFlowSet
       \<lparr> TemplateID = 256, PacketDomainID = 0, Records =
         [\<lparr>Type = ipfix_IPv4SrcAddr, Length = 4\<rparr>, \<lparr>Type = ipfix_IPv4DstAddr, Length = 4\<rparr>,
          \<lparr>Type = ipfix_SrcAs, Length = 4\<rparr>, \<lparr>Type = ipfix_DstAs, Length = 4\<rparr>] \<rparr>
       [\<lparr>Values = [[1, 0, 0, 10], [2, 0, 0, 10], [0, 0, 252, 0], [0, 0, 253, 232]]\<rparr>]
       [192, 0, 2, 1] 1017 (newIPFIXServer True 0) = Inr s' \<and>
     map SrcAs (Output s') = [0] \<and> map DstAs (Output s') = [0])"
proof -
  let ?T = "\<lparr> TemplateID = 256, PacketDomainID = 0, Records =
         [\<lparr>Type = ipfix_IPv4SrcAddr, Length = 4\<rparr>, \<lparr>Type = ipfix_IPv4DstAddr, Length = 4\<rparr>,
          \<lparr>Type = ipfix_SrcAs, Length = 4\<rparr>, \<lparr>Type = ipfix_DstAs, Length = 4\<rparr>] \<rparr>"
  let ?R = "\<lparr>Values = [[1, 0, 0, 10], [2, 0, 0, 10], [0, 0, 252, 0], [0, 0, 253, 232 :: byte]]\<rparr>"
  have fm: "generateFieldMap ?T =
      zeroFieldMap\<lparr>srcAddr := 0, family := 4, dstAddr := 1, srcAsn := 2, dstAsn := 3\<rparr>"
    by (simp add: generateFieldMap_def)
  have fam: "family (generateFieldMap ?T) = 4 \<or> family (generateFieldMap ?T) = 6"
    by (simp add: fm)
  have run: "\<exists>s'. processFlowSet ?T [?R] [192, 0, 2, 1] 1017 (newIPFIXServer bgp 0) = Inr s'" for bgp
    by (simp add: processFlowSet_def fm processRecord_def makeFlow_def bindP_def valueAt_def
        zeroFieldMap_def newIPFIXServer_def Let_def)
  from run [of False] obtain s0 where
    r0: "processFlowSet ?T [?R] [192, 0, 2, 1] 1017 (newIPFIXServer False 0) = Inr s0" ..
  from run [of True] obtain s1 where
    r1: "processFlowSet ?T [?R] [192, 0, 2, 1] 1017 (newIPFIXServer True 0) = Inr s1" ..
  from processFlowSet_AS_fields [OF r0 fam]
  have a0: "map SrcAs (Output s0) = [64512] \<and> map DstAs (Output s0) = [65000]"
    by (auto simp: list_all2_Cons2 newIPFIXServer_def fm zeroFieldMap_def Uint32_examples)
  from processFlowSet_AS_fields [OF r1 fam]
  have a1: "map SrcAs (Output s1) = [0] \<and> map DstAs (Output s1) = [0]"
    by (auto simp: list_all2_Cons2 newIPFIXServer_def)
  have e0: "\<exists>s'. processFlowSet ?T [?R] [192, 0, 2, 1] 1017 (newIPFIXServer False 0) = Inr s' \<and>
     map SrcAs (Output s') = [64512] \<and> map DstAs (Output s') = [65000]"
    by (rule exI [of _ s0]) (simp add: r0 a0)
  have e1: "\<exists>s'. processFlowSet ?T [?R] [192, 0, 2, 1] 1017 (newIPFIXServer True 0) = Inr s' \<and>
     map SrcAs (Output s') = [0] \<and> map DstAs (Output s') = [0]"
    by (rule exI [of _ s1]) (simp add: r1 a1)
  from e0 e1 show ?thesis by (rule conjI)
qed

text \<open>
  Claim C2, as the code has it. When the packet-count field type does not occur in the
  template, the packet-count slot of the layout keeps its initial index 0, and the packet
  count of every flow built from a record of the set is the record's value at index 0,
  decoded by \<open>Uint32\<close>; likewise for the byte-count field type and the flow's size.
\<close>

theorem processFlowSet_absent_counter_reads_index_zero:
  assumes "processFlowSet template records agent t s = Inr s'"
    and "family (generateFieldMap template) = 4 \<or> family (generateFieldMap template) = 6"
  shows "(ipfix_InPkts \<notin> Type ` set (Records template) \<longrightarrow> packets (generateFieldMap template) = 0) \<and>
     (ipfix_InBytes \<notin> Type ` set (Records template) \<longrightarrow> size_fm (generateFieldMap template) = 0) \<and>
     (\<exists>fls. Output s' = Output s @ fls \<and>
        list_all2 (\<lambda>fl r. Values r \<noteq> [] \<and>
           (ipfix_InPkts \<notin> Type ` set (Records template) \<longrightarrow> Packets fl = Uint32 (Values r ! 0)) \<and>
           (ipfix_InBytes \<notin> Type ` set (Records template) \<longrightarrow> Size fl = ucast (Uint32 (Values r ! 0))))
          fls records)"
proof -
  have p: "packets (generateFieldMap template) = 0" if "ipfix_InPkts \<notin> Type ` set (Records template)"
  proof -
    from that have "\<forall>f \<in> set (Records template). Type f \<notin> {ipfix_InPkts}" by force
    then have "packets (generateFieldMap template) = packets zeroFieldMap"
      by (intro generateFieldMap_absent [of packets "{ipfix_InPkts}"]) (simp_all only: fieldSwitch_slot)
    then show ?thesis by (simp add: zeroFieldMap_def)
  qed
  have b: "size_fm (generateFieldMap template) = 0" if "ipfix_InBytes \<notin> Type ` set (Records template)"
  proof -
    from that have "\<forall>f \<in> set (Records template). Type f \<notin> {ipfix_InBytes}" by force
    then have "size_fm (generateFieldMap template) = size_fm zeroFieldMap"
      by (intro generateFieldMap_absent [of size_fm "{ipfix_InBytes}"]) (simp_all only: fieldSwitch_slot)
    then show ?thesis by (simp add: zeroFieldMap_def)
  qed
  from processFlowSet_flows [OF assms] obtain fls where
    out: "Output s' = Output s @ fls" and
    mk: "list_all2 (\<lambda>fl r. makeFlow (ifs_bgpAugment s) (generateFieldMap template) r agent t = Inr fl)
       fls records"
    by blast
  have "list_all2 (\<lambda>fl r. Values r \<noteq> [] \<and>
           (ipfix_InPkts \<notin> Type ` set (Records template) \<longrightarrow> Packets fl = Uint32 (Values r ! 0)) \<and>
           (ipfix_InBytes \<notin> Type ` set (Records template) \<longrightarrow> Size fl = ucast (Uint32 (Values r ! 0))))
          fls records"
    using mk
  proof (rule list_all2_mono)
    fix fl r
    assume m: "makeFlow (ifs_bgpAugment s) (generateFieldMap template) r agent t = Inr fl"
    from makeFlow_in_range [OF m] have "Values r \<noteq> []" by auto
    with makeFlow_fields [OF m] p b
    show "Values r \<noteq> [] \<and>
           (ipfix_InPkts \<notin> Type ` set (Records template) \<longrightarrow> Packets fl = Uint32 (Values r ! 0)) \<and>
           (ipfix_InBytes \<notin> Type ` set (Records template) \<longrightarrow> Size fl = ucast (Uint32 (Values r ! 0)))"
      by auto
  qed
  with out p b show ?thesis by blast
qed

theorem processFlowSet_absent_counter_reads_index_zero_witness:
  "ipfix_InPkts \<notin> Type ` set (Records \<lparr> TemplateID = 256, PacketDomainID = 0, Records =
         [\<lparr>Type = ipfix_IPv4SrcAddr, Length = 4\<rparr>, \<lparr>Type = ipfix_IPv4DstAddr, Length = 4\<rparr>,
          \<lparr>Type = ipfix_Protocol, Length = 1\<rparr>] \<rparr>) \<and>
   ipfix_InBytes \<notin> Type ` set (Records \<lparr> TemplateID = 256, PacketDomainID = 0, Records =
         [\<lparr>Type = ipfix_IPv4SrcAddr, Length = 4\<rparr>, \<lparr>Type = ipfix_IPv4DstAddr, Length = 4\<rparr>,
          \<lparr>Type = ipfix_Protocol, Length = 1\<rparr>] \<rparr>) \<and>
   (\<exists>s'. processFlowSet
       \<lparr> TemplateID = 256, PacketDomainID = 0, Records =
         [\<lparr>Type = ipfix_IPv4SrcAddr, Length = 4\<rparr>, \<lparr>Type = ipfix_IPv4DstAddr, Length = 4\<rparr>,
          \<lparr>Type = ipfix_Protocol, Length = 1\<rparr>] \<rparr>
       [\<lparr>Values = [[10, 0, 0, 10], [2, 0, 0, 10], [6]]\<rparr>]
       [192, 0, 2, 1] 1017 (newIPFIXServer False 0) = Inr s' \<and>
     map Packets (Output s') = [Uint32 [10, 0, 0, 10]] \<and>
     map Size (Output s') = [ucast (Uint32 [10, 0, 0, 10])])"
proof -
  let ?T = "\<lparr> TemplateID = 256, PacketDomainID = 0, Records =
         [\<lparr>Type = ipfix_IPv4SrcAddr, Length = 4\<rparr>, \<lparr>Type = ipfix_IPv4DstAddr, Length = 4\<rparr>,
          \<lparr>Type = ipfix_Protocol, Length = 1\<rparr>] \<rparr>"
  let ?R = "\<lparr>Values = [[10, 0, 0, 10], [2, 0, 0, 10], [6 :: byte]]\<rparr>"
  have fm: "generateFieldMap ?T =
      zeroFieldMap\<lparr>srcAddr := 0, family := 4, dstAddr := 1, protocol := 2\<rparr>"
    by (simp add: generateFieldMap_def)
  have fam: "family (generateFieldMap ?T) = 4 \<or> family (generateFieldMap ?T) = 6"
    by (simp add: fm)
  have absent: "ipfix_InPkts \<notin> Type ` set (Records ?T)" "ipfix_InBytes \<notin> Type ` set (Records ?T)"
    by simp_all
  have "\<exists>s'. processFlowSet ?T [?R] [192, 0, 2, 1] 1017 (newIPFIXServer False 0) = Inr s'"
    by (simp add: processFlowSet_def fm processRecord_def makeFlow_def bindP_def valueAt_def
        zeroFieldMap_def newIPFIXServer_def Let_def)
  then obtain s' where
    run: "processFlowSet ?T [?R] [192, 0, 2, 1] 1017 (newIPFIXServer False 0) = Inr s'" ..
  from processFlowSet_absent_counter_reads_index_zero [OF run fam] absent
  have vals: "map Packets (Output s') = [Uint32 [10, 0, 0, 10]] \<and>
     map Size (Output s') = [ucast (Uint32 [10, 0, 0, 10])]"
    by (auto simp: list_all2_Cons2 newIPFIXServer_def)
  have "\<exists>s'. processFlowSet ?T [?R] [192, 0, 2, 1] 1017 (newIPFIXServer False 0) = Inr s' \<and>
     map Packets (Output s') = [Uint32 [10, 0, 0, 10]] \<and>
     map Size (Output s') = [ucast (Uint32 [10, 0, 0, 10])]"
    by (rule exI [of _ s']) (simp add: run vals)
  with absent show ?thesis by (intro conjI)
qed

text \<open>
  Claim C2, as the spec states it, that the count is zero: the template (IPv4 source
  address, IPv4 destination address, protocol) has neither count field; for the record
  with the values (10.0.0.10, 10.0.0.2, 6) the flow's packet count and size are both
  167772170, the source address read as a number (the address bytes are the same in
  both byte orders).
\<close>

theorem processFlowSet_absent_counter_counterexample:
  "ipfix_InPkts \<notin> Type ` set (Records \<lparr> TemplateID = 256, PacketDomainID = 0, Records =
         [\<lparr>Type = ipfix_IPv4SrcAddr, Length = 4\<rparr>, \<lparr>Type = ipfix_IPv4DstAddr, Length = 4\<rparr>,
          \<lparr>Type = ipfix_Protocol, Length = 1\<rparr>] \<rparr>) \<and>
   ipfix_InBytes \<notin> Type ` set (Records \<lparr> TemplateID = 256, PacketDomainID = 0, Records =
         [\<lparr>Type = ipfix_IPv4SrcAddr, Length = 4\<rparr>, \<lparr>Type = ipfix_IPv4DstAddr, Length = 4\<rparr>,
          \<lparr>Type = ipfix_Protocol, Length = 1\<rparr>] \<rparr>) \<and>
   (\<exists>s'. processFlowSet
       \<lparr> TemplateID = 256, PacketDomainID = 0, Records =
         [\<lparr>Type = ipfix_IPv4SrcAddr, Length = 4\<rparr>, \<lparr>Type = ipfix_IPv4DstAddr, Length = 4\<rparr>,
          \<lparr>Type = ipfix_Protocol, Length = 1\<rparr>] \<rparr>
       [\<lparr>Values = [[10, 0, 0, 10], [2, 0, 0, 10], [6]]\<rparr>]
       [192, 0, 2, 1] 1017 (newIPFIXServer False 0) = Inr s' \<and>
     map Packets (Output s') = [167772170] \<and> map Size (Output s') = [167772170] \<and>
     Packets (hd (Output s')) \<noteq> 0 \<and> Size (hd (Output s')) \<noteq> 0)"
  by (simp add: processFlowSet_def generateFieldMap_def processRecord_def makeFlow_def bindP_def
      valueAt_def zeroFieldMap_def newIPFIXServer_def zeroFlow_def Let_def Uint32_def)

section \<open>The ingestion worker\<close>

subsection \<open>The template cache\<close>

text \<open>
  The cache starts empty, \<open>updateTemplateCache\<close> is the only writer, and it writes the
  identities of the packet's template records only: an identity that was never registered
  is absent.
\<close>

lemma newTemplateCache_absent:
  "cache_get (tmplCache (newIPFIXServer bgp dbg)) router domainID templateID = None"
  by (simp add: newIPFIXServer_def newTemplateCache_def cache_get_def)

lemma cache_get_set:
  "cache_get (cache_set c r d i tr) r' d' i' =
     (if (r, d, i) = (r', d', i') then Some tr else cache_get c r' d' i')"
  by (simp add: cache_get_def cache_set_def)

lemma updateTemplateCache_absent:
  assumes "cache_get (tmplCache s) router domainID templateID = None"
    and "(router, domainID, templateID) \<notin>
      (\<lambda>tr. (Uint32 remote, PacketDomainID tr, TemplateID tr)) ` set (GetTemplateRecords p)"
  shows "cache_get (tmplCache (updateTemplateCache remote p s)) router domainID templateID = None"
proof -
  have "cache_get (foldl (\<lambda>c tr. cache_set c (Uint32 remote) (PacketDomainID tr) (TemplateID tr) tr)
          c trs) router domainID templateID = None"
    if "cache_get c router domainID templateID = None"
      and "(router, domainID, templateID) \<notin>
        (\<lambda>tr. (Uint32 remote, PacketDomainID tr, TemplateID tr)) ` set trs" for c trs
    using that
  proof (induction trs arbitrary: c)
    case Nil
    then show ?case by simp
  next
    case (Cons tr trs)
    from Cons.prems have
      "cache_get (cache_set c (Uint32 remote) (PacketDomainID tr) (TemplateID tr) tr)
         router domainID templateID = None"
      by (auto simp: cache_get_set)
    moreover from Cons.prems(2) have "(router, domainID, templateID) \<notin>
        (\<lambda>tr. (Uint32 remote, PacketDomainID tr, TemplateID tr)) ` set trs"
      by simp
    ultimately show ?case using Cons.IH by simp
  qed
  from this [OF assms] show ?thesis by (simp add: updateTemplateCache_def)
qed

text \<open>
  Processing the data sets of a packet writes neither the template cache nor the two
  wire-level counters.
\<close>

lemma processFlowSets_frame:
  assumes "processFlowSets decodeFlowSet remote domainID flowSets t s = Inr s'"
  shows "tmplCache s' = tmplCache s \<and>
     IPFIXpackets (stats s') = IPFIXpackets (stats s) \<and> IPFIXbytes (stats s') = IPFIXbytes (stats s)"
  using assms
proof (induction flowSets arbitrary: s)
  case Nil
  then show ?case by simp
next
  case (Cons fs flowSets)
  show ?case
  proof (cases "cache_get (tmplCache s) (Uint32 remote) domainID (SetID fs)")
    case None
    with Cons.prems have "processFlowSets decodeFlowSet remote domainID flowSets t s = Inr s'"
      by simp
    then show ?thesis by (rule Cons.IH)
  next
    case (Some template)
    show ?thesis
    proof (cases "decodeFlowSet template fs")
      case None
      with Some Cons.prems have "processFlowSets decodeFlowSet remote domainID flowSets t s = Inr s'"
        by simp
      then show ?thesis by (rule Cons.IH)
    next
      case (Some records)
      with \<open>cache_get (tmplCache s) (Uint32 remote) domainID (SetID fs) = Some template\<close> Cons.prems
      obtain s1 where s1: "processFlowSet template records remote t s = Inr s1"
        and rest: "processFlowSets decodeFlowSet remote domainID flowSets t s1 = Inr s'"
        by (auto split: sum.splits)
      from s1 have "processRecords (generateFieldMap template) remote t s records = Inr s1"
        by (simp add: processFlowSet_def)
      from processRecords_flows [OF this] Cons.IH [OF rest] show ?thesis by simp
    qed
  qed
qed

subsection \<open>Data sets and datagrams\<close>

text \<open>
  Claim C6. A data set whose template identity (exporter address, domain identifier, set
  identifier) is absent from the template cache, as every identity is that was never
  registered (\<open>newTemplateCache_absent\<close>, \<open>updateTemplateCache_absent\<close>,
  \<open>processFlowSets_frame\<close>): processing that set alone returns the server as it was, so no
  flow is sent and the cache is unchanged, without a panic; and with more sets behind it
  the loop goes on with the next set, from the same state. The set is not decoded.
\<close>

theorem processFlowSets_unknown_template:
  assumes "cache_get (tmplCache s) (Uint32 remote) domainID (SetID fs) = None"
  shows "processFlowSets decodeFlowSet remote domainID [fs] t s = Inr s \<and>
         processFlowSets decodeFlowSet remote domainID (fs # flowSets) t s =
           processFlowSets decodeFlowSet remote domainID flowSets t s"
  using assms by simp

theorem processFlowSets_unknown_template_witness:
  "cache_get (tmplCache (newIPFIXServer False 1)) (Uint32 [192, 0, 2, 1]) 0
     (SetID \<lparr>SetID = 256, Payload = [1, 0, 0, 10]\<rparr>) = None \<and>
   processFlowSets (\<lambda>template fs. Some [\<lparr>Values = [Payload fs]\<rparr>]) [192, 0, 2, 1] 0
     [\<lparr>SetID = 256, Payload = [1, 0, 0, 10]\<rparr>] 1017 (newIPFIXServer False 1)
     = Inr (newIPFIXServer False 1)"
proof -
  have a: "cache_get (tmplCache (newIPFIXServer False 1)) (Uint32 [192, 0, 2, 1]) 0
     (SetID \<lparr>SetID = 256, Payload = [1, 0, 0, 10]\<rparr>) = None"
    by (rule newTemplateCache_absent)
  from processFlowSets_unknown_template [OF a, of "\<lambda>template fs. Some [\<lparr>Values = [Payload fs]\<rparr>]" 1017 "[]"] a
  show ?thesis by (intro conjI) simp_all
qed

text \<open>
  Claim C7, as the code has it. A datagram whose sender address \<open>To4\<close> rejects is not
  decoded (the result does not depend on \<open>decode\<close>), updates no template, sends no flow,
  and the worker goes on with the next read. The only change is to the two wire-level
  counters, the received packets by 1 and the received bytes by the datagram's length,
  and that is what every datagram does to them, rejected or not.
\<close>

theorem packetWorkerStep_rejects_non_IPv4:
  assumes "To4 remoteIP = None"
  shows "packetWorkerStep decode decodeFlowSet s (Datagram remoteIP buffer) =
           Inr (s\<lparr>stats := (stats s)\<lparr> IPFIXpackets := IPFIXpackets (stats s) + 1,
                    IPFIXbytes := IPFIXbytes (stats s) + of_nat (length buffer) \<rparr>\<rparr>) \<and>
         packetWorker decode decodeFlowSet s (Datagram remoteIP buffer # rds) =
           packetWorker decode decodeFlowSet
             (s\<lparr>stats := (stats s)\<lparr> IPFIXpackets := IPFIXpackets (stats s) + 1,
                    IPFIXbytes := IPFIXbytes (stats s) + of_nat (length buffer) \<rparr>\<rparr>) rds \<and>
         (\<forall>ip buf s'. packetWorkerStep decode decodeFlowSet s (Datagram ip buf) = Inr s' \<longrightarrow>
            IPFIXpackets (stats s') = IPFIXpackets (stats s) + 1 \<and>
            IPFIXbytes (stats s') = IPFIXbytes (stats s) + of_nat (length buf))"
proof -
  have step: "packetWorkerStep decode decodeFlowSet s (Datagram remoteIP buffer) =
           Inr (s\<lparr>stats := (stats s)\<lparr> IPFIXpackets := IPFIXpackets (stats s) + 1,
                    IPFIXbytes := IPFIXbytes (stats s) + of_nat (length buffer) \<rparr>\<rparr>)"
    using assms by (simp add: packetWorkerStep_def Let_def)
  have counted: "IPFIXpackets (stats s') = IPFIXpackets (stats s) + 1 \<and>
            IPFIXbytes (stats s') = IPFIXbytes (stats s) + of_nat (length buf)"
    if run: "packetWorkerStep decode decodeFlowSet s (Datagram ip buf) = Inr s'" for ip buf s'
  proof -
    let ?s1 = "s\<lparr>stats := (stats s)\<lparr> IPFIXpackets := IPFIXpackets (stats s) + 1,
                    IPFIXbytes := IPFIXbytes (stats s) + of_nat (length buf) \<rparr>\<rparr>"
    show ?thesis
    proof (cases "To4 ip")
      case None
      with run have "s' = ?s1" by (simp add: packetWorkerStep_def Let_def)
      then show ?thesis by simp
    next
      case (Some ip4)
      with run have pp: "processPacket decode decodeFlowSet ip4 buf ?s1 = Inr s'"
        by (simp add: packetWorkerStep_def Let_def)
      show ?thesis
      proof (cases "decode buf ip4")
        case None
        with pp have "s' = ?s1" by (simp add: processPacket_def)
        then show ?thesis by simp
      next
        case (Some packet)
        with pp have "processFlowSets decodeFlowSet ip4 (DomainID packet) (DataFlowSets packet)
            (ucast (ExportTime packet)) (updateTemplateCache ip4 packet ?s1) = Inr s'"
          by (simp add: processPacket_def)
        from processFlowSets_frame [OF this] show ?thesis
          by (simp add: updateTemplateCache_def)
      qed
    qed
  qed
  from step counted show ?thesis by simp
qed

theorem packetWorkerStep_rejects_non_IPv4_witness:
  "To4 [32, 1, 13, 184, 0, 0, 0, 0, 0, 0, 0, 0, 0, 0, 0, 1] = None \<and>
   packetWorkerStep (\<lambda>buffer remote. None) (\<lambda>template fs. None) (newIPFIXServer False 0)
     (Datagram [32, 1, 13, 184, 0, 0, 0, 0, 0, 0, 0, 0, 0, 0, 0, 1] [0, 10, 0, 16])
   = Inr ((newIPFIXServer False 0)\<lparr>stats := zeroStats\<lparr>IPFIXpackets := 1, IPFIXbytes := 4\<rparr>\<rparr>)"
proof -
  have a: "To4 [32, 1, 13, 184, 0, 0, 0, 0, 0, 0, 0, 0, 0, 0, 0, 1] = None"
    by (simp add: To4_def)
  from packetWorkerStep_rejects_non_IPv4 [OF a, of "\<lambda>buffer remote. None" "\<lambda>template fs. None"
      "newIPFIXServer False 0" "[0, 10, 0, 16]" "[]"] a
  show ?thesis by (simp add: newIPFIXServer_def zeroStats_def)
qed

text \<open>
  Claim C7, as the spec states it, that a counter records the rejection: a datagram of
  four bytes from the IPv6 sender 2001:db8::1 is rejected, the same four bytes from the
  IPv4 sender 192.0.2.1 are accepted and decoded (to a packet without sets), and the
  server, with all its counters, is the same after the one as after the other.
\<close>

theorem packetWorkerStep_no_rejection_counter_counterexample:
  "To4 [32, 1, 13, 184, 0, 0, 0, 0, 0, 0, 0, 0, 0, 0, 0, 1] = None \<and>
   To4 [192, 0, 2, 1] = Some [192, 0, 2, 1] \<and>
   packetWorkerStep
     (\<lambda>buffer remote. Some \<lparr>DomainID = 0, ExportTime = 0, GetTemplateRecords = [], DataFlowSets = []\<rparr>)
     (\<lambda>template fs. None) (newIPFIXServer False 0)
     (Datagram [32, 1, 13, 184, 0, 0, 0, 0, 0, 0, 0, 0, 0, 0, 0, 1] [0, 10, 0, 16])
   = Inr ((newIPFIXServer False 0)\<lparr>stats := zeroStats\<lparr>IPFIXpackets := 1, IPFIXbytes := 4\<rparr>\<rparr>) \<and>
   packetWorkerStep
     (\<lambda>buffer remote. Some \<lparr>DomainID = 0, ExportTime = 0, GetTemplateRecords = [], DataFlowSets = []\<rparr>)
     (\<lambda>template fs. None) (newIPFIXServer False 0)
     (Datagram [192, 0, 2, 1] [0, 10, 0, 16])
   = Inr ((newIPFIXServer False 0)\<lparr>stats := zeroStats\<lparr>IPFIXpackets := 1, IPFIXbytes := 4\<rparr>\<rparr>)"
  by (simp add: To4_def packetWorkerStep_def processPacket_def updateTemplateCache_def
      newIPFIXServer_def zeroStats_def Let_def)

end
